theory Spec2Isabelle
  imports Complex_Main "HOL-Library.Sublist"
begin

section \<open>src/utils/retry.py: the decorator \<open>async_retry\<close>\<close>

text \<open>
  Exceptions seen by the wrapper. \<open>AsyncioTimeoutError\<close> is \<open>asyncio.TimeoutError\<close>, raised
  by \<open>asyncio.wait_for\<close> when an attempt overruns \<open>timeout\<close> (or by the decorated function
  itself); \<open>Exn msg\<close> is any other subclass of \<open>Exception\<close>, with its message; \<open>BaseExn msg\<close>
  is an exception outside \<open>Exception\<close>, such as \<open>asyncio.CancelledError\<close> or
  \<open>KeyboardInterrupt\<close>.
\<close>

datatype exn = AsyncioTimeoutError | Exn string | BaseExn string

text \<open>\<open>isinstance(e, Exception)\<close>, what \<open>except Exception\<close> catches.\<close>

fun is_exception :: "exn \<Rightarrow> bool" where
  "is_exception (BaseExn msg) = False"
| "is_exception _ = True"

text \<open>What one call \<open>await func(*args, **kwargs)\<close> does when nothing cuts it short.\<close>

datatype 'v outcome = Returned 'v | Raised exn

text \<open>
  The decorator's arguments. Delays are Python floats; they are modelled as exact
  rationals. \<open>on_retry\<close> records whether a callback was supplied.
\<close>

record retry_params =
  max_retries :: int
  delay :: rat
  backoff :: rat
  exceptions :: "exn \<Rightarrow> bool"
  timeout :: "rat option"
  on_retry :: bool

text \<open>
  What the wrapper does, in order: it starts attempt \<open>k\<close> (which takes some time),
  it calls \<open>on_retry(e, k)\<close>, it awaits \<open>asyncio.sleep(d)\<close>.
\<close>

datatype event = Attempt nat rat | OnRetry exn nat | Sleep rat

text \<open>How a call of the wrapper ends.\<close>

datatype 'v ending =
    Return 'v
  | RetryError exn       \<comment> \<open>\<open>raise RetryError(...) from e\<close>: the cause is \<open>e\<close>\<close>
  | Propagated exn       \<comment> \<open>an exception no \<open>except\<close> clause matches\<close>
  | ReturnNone           \<comment> \<open>the loop ends with \<open>last_exception\<close> still \<open>None\<close>\<close>

text \<open>
  Lines 49-54: with a timeout the call runs under \<open>asyncio.wait_for\<close>. An attempt that
  has not ended when the timeout expires is cancelled then, and \<open>asyncio.TimeoutError\<close>
  is raised in its place; with a timeout of zero or less it is cancelled before it
  starts.
\<close>

fun run_attempt :: "rat option \<Rightarrow> rat \<times> 'v outcome \<Rightarrow> rat \<times> 'v outcome" where
  "run_attempt None r = r"
| "run_attempt (Some t) (dur, out) =
     (if t \<le> dur then (max 0 t, Raised AsyncioTimeoutError) else (dur, out))"

text \<open>
  Lines 44-80, the \<open>for attempt in range(max_retries + 1)\<close> loop over the attempts still to
  run, with \<open>current_delay\<close> and \<open>last_exception\<close> as loop state. The operation is given by
  what its \<open>k\<close>-th call does: its duration and its outcome.
\<close>

fun wrapper_loop ::
  "retry_params \<Rightarrow> (nat \<Rightarrow> rat \<times> 'v outcome) \<Rightarrow> nat list \<Rightarrow> rat \<Rightarrow> exn option
     \<Rightarrow> event list \<times> 'v ending" where
  "wrapper_loop P f [] current_delay last_exception =
     ([], case last_exception of None \<Rightarrow> ReturnNone | Some e \<Rightarrow> RetryError e)"
| "wrapper_loop P f (attempt # rest) current_delay last_exception =
     (case run_attempt (timeout P) (f attempt) of
        (dur, Returned v) \<Rightarrow> ([Attempt attempt dur], Return v)
      | (dur, Raised e) \<Rightarrow>
          if e = AsyncioTimeoutError then
            (let (evs, r) = wrapper_loop P f rest current_delay (Some e)
             in (Attempt attempt dur # evs, r))
          else if exceptions P e then
            (if int attempt < max_retries P then
               (let (evs, r) = wrapper_loop P f rest (current_delay * backoff P) (Some e)
                in (Attempt attempt dur # (if on_retry P then [OnRetry e attempt] else [])
                      @ Sleep current_delay # evs, r))
             else ([Attempt attempt dur], RetryError e))
          else ([Attempt attempt dur], Propagated e))"

definition wrapper :: "retry_params \<Rightarrow> (nat \<Rightarrow> rat \<times> 'v outcome) \<Rightarrow> event list \<times> 'v ending" where
  "wrapper P f = wrapper_loop P f [0 ..< nat (max_retries P + 1)] (delay P) None"

text \<open>Observations on a run.\<close>

fun attempts :: "event list \<Rightarrow> nat list" where
  "attempts [] = []"
| "attempts (Attempt k d # evs) = k # attempts evs"
| "attempts (_ # evs) = attempts evs"


fun sleeps :: "event list \<Rightarrow> rat list" where
  "sleeps [] = []"
| "sleeps (Sleep d # evs) = d # sleeps evs"
| "sleeps (_ # evs) = sleeps evs"

fun observed :: "event list \<Rightarrow> (exn \<times> nat) list" where
  "observed [] = []"
| "observed (OnRetry e k # evs) = (e, k) # observed evs"
| "observed (_ # evs) = observed evs"

text \<open>
  Attempt \<open>k\<close> ends in the \<open>except exceptions\<close> clause with exception \<open>e\<close>: the call raised
  \<open>e\<close>, which is not a timeout and is one of \<open>exceptions\<close>.
\<close>

definition caught :: "retry_params \<Rightarrow> (nat \<Rightarrow> rat \<times> 'v outcome) \<Rightarrow> nat \<Rightarrow> exn \<Rightarrow> bool" where
  "caught P f k e \<longleftrightarrow>
     snd (run_attempt (timeout P) (f k)) = Raised e \<and> e \<noteq> AsyncioTimeoutError \<and> exceptions P e"

text \<open>Attempt \<open>k\<close> fails, whatever the way: the call raises or is cut by the timeout.\<close>

definition attempt_failed :: "retry_params \<Rightarrow> (nat \<Rightarrow> rat \<times> 'v outcome) \<Rightarrow> nat \<Rightarrow> bool" where
  "attempt_failed P f k = (case snd (run_attempt (timeout P) (f k)) of Raised e \<Rightarrow> True | Returned v \<Rightarrow> False)"

text \<open>
  Every call of the observer comes right after the attempt it reports and right before
  a sleep.
\<close>

fun placed :: "event list \<Rightarrow> bool" where
  "placed [] = True"
| "placed (Attempt k d # OnRetry e k' # evs) =
     (k = k' \<and> (case evs of Sleep s # _ \<Rightarrow> True | _ \<Rightarrow> False) \<and> placed evs)"
| "placed (OnRetry e k # evs) = False"
| "placed (x # evs) = placed evs"

text \<open>The calls of the observer that attempt \<open>k\<close> causes, read off lines 62-66.\<close>

definition obs_of :: "retry_params \<Rightarrow> (nat \<Rightarrow> rat \<times> 'v outcome) \<Rightarrow> nat \<Rightarrow> (exn \<times> nat) list" where
  "obs_of P f k =
     (case snd (run_attempt (timeout P) (f k)) of
        Raised e \<Rightarrow>
          if e \<noteq> AsyncioTimeoutError \<and> exceptions P e \<and> int k < max_retries P \<and> on_retry P
          then [(e, k)] else []
      | Returned v \<Rightarrow> [])"


text \<open>The configuration every decorated call site of the repository but one uses:
  \<open>@async_retry(max_retries=3, delay=1, backoff=2, timeout=300)\<close>, with the defaults
  \<open>exceptions=Exception\<close> and \<open>on_retry=None\<close>.\<close>

definition repo_params :: retry_params where
  "repo_params = \<lparr> max_retries = 3, delay = 1, backoff = 2, exceptions = is_exception,
                   timeout = Some 300, on_retry = False \<rparr>"

text \<open>An operation that never answers in time, and one that raises at once on every call.\<close>

definition hanging :: "nat \<Rightarrow> rat \<times> unit outcome" where
  "hanging k = (1000, Returned ())"

definition failing :: "nat \<Rightarrow> rat \<times> unit outcome" where
  "failing k = (0, Raised (Exn ''ConnectionError''))"


subsection \<open>\<open>TimeoutContext\<close>\<close>

text \<open>
  Lines 85-130. The context keeps its budget and the time it was created at; every
  method reads the clock, given here as \<open>now\<close>. \<open>sleep\<close> returns the time at which it ends.
  No function of the repository creates a \<open>TimeoutContext\<close>.
\<close>

record timeout_context =
  tc_timeout :: rat
  tc_start_time :: rat

definition remaining :: "timeout_context \<Rightarrow> rat \<Rightarrow> rat" where
  "remaining ctx now = max 0 (tc_timeout ctx - (now - tc_start_time ctx))"


definition context_sleep :: "timeout_context \<Rightarrow> rat \<Rightarrow> rat \<Rightarrow> exn + rat" where
  "context_sleep ctx now duration =
     (if duration > remaining ctx now then Inl AsyncioTimeoutError
      else Inr (now + max 0 duration))"

section \<open>Python values and the operations the modules apply to them\<close>

text \<open>
  The analysis and transcription results are untyped JSON (\<open>Dict[str, Any]\<close>). A JSON object
  is kept as the list of its items in insertion order; numbers are exact rationals.
\<close>

datatype jval =
    JNull
  | JBool bool
  | JNum rat
  | JStr string
  | JList "jval list"
  | JObj "(string \<times> jval) list"

datatype py_error = IndexError | KeyError string | TypeError

text \<open>\<open>str.join\<close> and \<open>str.split(''. '')\<close>.\<close>

fun join :: "string \<Rightarrow> string list \<Rightarrow> string" where
  "join sep [] = []"
| "join sep [x] = x"
| "join sep (x # y # ys) = x @ sep @ join sep (y # ys)"

fun split_dot :: "string \<Rightarrow> string list" where
  "split_dot [] = [[]]"
| "split_dot [c] = [[c]]"
| "split_dot (c # d # cs) =
     (if c = CHR ''.'' \<and> d = CHR '' '' then [] # split_dot cs
      else (case split_dot (d # cs) of [] \<Rightarrow> [[c]] | s # ss \<Rightarrow> (c # s) # ss))"

text \<open>\<open>x in s\<close> for strings: \<open>x\<close> occurs in \<open>s\<close> as a contiguous substring.\<close>

fun substring :: "string \<Rightarrow> string \<Rightarrow> bool" where
  "substring k [] = (k = [])"
| "substring k (c # cs) = (prefix k (c # cs) \<or> substring k cs)"

text \<open>\<open>key in v\<close> with a string key.\<close>

fun py_in :: "string \<Rightarrow> jval \<Rightarrow> py_error + bool" where
  "py_in k (JObj kvs) = Inr (k \<in> set (map fst kvs))"
| "py_in k (JList xs) = Inr (JStr k \<in> set xs)"
| "py_in k (JStr s) = Inr (substring k s)"
| "py_in k _ = Inl TypeError"

text \<open>\<open>v[key]\<close> with a string key: only a dict can be indexed by a string.\<close>

fun py_getitem :: "jval \<Rightarrow> string \<Rightarrow> py_error + jval" where
  "py_getitem (JObj kvs) k = (case map_of kvs k of None \<Rightarrow> Inl (KeyError k) | Some v \<Rightarrow> Inr v)"
| "py_getitem _ k = Inl TypeError"

text \<open>
  A \<open>str\<close> is a sequence of code points; a string is held here as its UTF-8 bytes. A
  code point is a byte that is not a continuation byte (\<open>10xxxxxx\<close>) together with the
  continuation bytes that follow it.
\<close>

definition is_continuation :: "char \<Rightarrow> bool" where
  "is_continuation c \<longleftrightarrow> 128 \<le> (of_char c :: nat) \<and> (of_char c :: nat) < 192"

fun code_points :: "string \<Rightarrow> string list" where
  "code_points [] = []"
| "code_points (c # cs) =
     (case code_points cs of
        [] \<Rightarrow> [[c]]
      | g # gs \<Rightarrow> if is_continuation (hd g) then (c # g) # gs else [c] # g # gs)"

text \<open>What \<open>for x in v\<close> and \<open>list.extend(v)\<close> iterate over.\<close>

fun py_iter :: "jval \<Rightarrow> py_error + jval list" where
  "py_iter (JList xs) = Inr xs"
| "py_iter (JStr s) = Inr (map JStr (code_points s))"
| "py_iter (JObj kvs) = Inr (map (\<lambda>kv. JStr (fst kv)) kvs)"
| "py_iter _ = Inl TypeError"

text \<open>Truth value of a JSON value, as \<open>if v:\<close> tests it.\<close>

fun truthy :: "jval \<Rightarrow> bool" where
  "truthy JNull = False"
| "truthy (JBool b) = b"
| "truthy (JNum x) = (x \<noteq> 0)"
| "truthy (JStr s) = (s \<noteq> [])"
| "truthy (JList xs) = (xs \<noteq> [])"
| "truthy (JObj kvs) = (kvs \<noteq> [])"

text \<open>\<open>total += v\<close> on a numeric total: a bool counts as 0 or 1, anything else raises.\<close>

fun py_add :: "rat \<Rightarrow> jval \<Rightarrow> py_error + rat" where
  "py_add t (JNum x) = Inr (t + x)"
| "py_add t (JBool b) = Inr (t + (if b then 1 else 0))"
| "py_add t _ = Inl TypeError"

section \<open>src/modules/analysis.py: \<open>Analyzer._chunk_transcript\<close>\<close>

text \<open>
  Lines 58-68, the loop over the sentences with \<open>chunks\<close>, \<open>current_chunk\<close> and
  \<open>current_tokens\<close> as loop state. \<open>tok s\<close> is \<open>len(self.encoding.encode(s))\<close>, the tokenizer
  being a library. The metrics the method records around the loop do not enter its
  result and are left out, here and in the merges below.
\<close>

fun chunk_loop ::
  "(string \<Rightarrow> nat) \<Rightarrow> int \<Rightarrow> string list \<Rightarrow> string list \<Rightarrow> string list \<Rightarrow> int
     \<Rightarrow> string list \<times> string list \<times> int" where
  "chunk_loop tok max_tokens [] chunks current_chunk current_tokens =
     (chunks, current_chunk, current_tokens)"
| "chunk_loop tok max_tokens (sentence # rest) chunks current_chunk current_tokens =
     (let sentence_tokens = int (tok sentence);
          (chunks1, current_chunk1, current_tokens1) =
            (if current_tokens + sentence_tokens > max_tokens then
               (if current_chunk \<noteq> [] then
                  (chunks @ [join ''. '' current_chunk @ ''.''], [], 0)
                else (chunks, current_chunk, current_tokens))
             else (chunks, current_chunk, current_tokens))
      in chunk_loop tok max_tokens rest chunks1 (current_chunk1 @ [sentence])
           (current_tokens1 + sentence_tokens))"

definition chunk_transcript :: "(string \<Rightarrow> nat) \<Rightarrow> string \<Rightarrow> int \<Rightarrow> string list" where
  "chunk_transcript tok transcript max_tokens =
     (let sentences = split_dot transcript;
          (chunks, current_chunk, current_tokens) =
             chunk_loop tok max_tokens sentences [] [] 0
      in if current_chunk \<noteq> [] then chunks @ [join ''. '' current_chunk @ ''.''] else chunks)"


section \<open>src/modules/analysis.py: \<open>Analyzer._combine_analyses\<close>\<close>

definition scalar_fields :: "string list" where
  "scalar_fields = [''identification'', ''participants'', ''structure'']"

definition list_fields :: "string list" where
  "list_fields = [''resume'', ''echanges'', ''citations'', ''problematiques'',
                  ''positionnements'', ''signaux_faibles'', ''annexes'']"

text \<open>
  Lines 190-196 for one \<open>analysis\<close>: \<open>combined[k].extend(analysis[k])\<close> for the list fields in
  the order of the statements. The first statement that raises ends the call.
\<close>

fun extend_fields :: "jval \<Rightarrow> (string \<times> jval list) list \<Rightarrow> py_error + (string \<times> jval list) list" where
  "extend_fields analysis [] = Inr []"
| "extend_fields analysis ((k, acc) # rest) =
     (case py_getitem analysis k of
        Inl e \<Rightarrow> Inl e
      | Inr v \<Rightarrow>
          (case py_iter v of
             Inl e \<Rightarrow> Inl e
           | Inr xs \<Rightarrow>
               (case extend_fields analysis rest of
                  Inl e \<Rightarrow> Inl e
                | Inr rest' \<Rightarrow> Inr ((k, acc @ xs) # rest'))))"

text \<open>Line 189, \<open>for analysis in analyses\<close>.\<close>

fun combine_loop :: "jval list \<Rightarrow> (string \<times> jval list) list \<Rightarrow> py_error + (string \<times> jval list) list" where
  "combine_loop [] combined = Inr combined"
| "combine_loop (analysis # rest) combined =
     (case extend_fields analysis combined of
        Inl e \<Rightarrow> Inl e
      | Inr combined' \<Rightarrow> combine_loop rest combined')"

text \<open>
  Lines 176-201. \<open>analyses[0]\<close> raises \<open>IndexError\<close> on an empty list; the \<open>except\<close> clause
  records the failure and re-raises, so the error is the result.
\<close>

definition combine_analyses :: "jval list \<Rightarrow> py_error + jval" where
  "combine_analyses analyses =
     (case analyses of
        [] \<Rightarrow> Inl IndexError
      | first # _ \<Rightarrow>
          (case py_getitem first ''identification'' of Inl e \<Rightarrow> Inl e | Inr ident \<Rightarrow>
          (case py_getitem first ''participants'' of Inl e \<Rightarrow> Inl e | Inr parts \<Rightarrow>
          (case py_getitem first ''structure'' of Inl e \<Rightarrow> Inl e | Inr struct \<Rightarrow>
          (case combine_loop analyses (map (\<lambda>k. (k, [])) list_fields) of Inl e \<Rightarrow> Inl e
           | Inr combined \<Rightarrow>
               Inr (JObj ([(''identification'', ident), (''participants'', parts),
                           (''structure'', struct)]
                          @ map (\<lambda>kv. (fst kv, JList (snd kv))) combined)))))))"

section \<open>src/modules/transcription.py: \<open>Transcriber._combine_chunks\<close>\<close>

text \<open>Lines 185-187, \<open>for alt in channel['alternatives']\<close>.\<close>

fun alt_loop :: "jval list \<Rightarrow> jval list \<Rightarrow> py_error + jval list" where
  "alt_loop [] transcript = Inr transcript"
| "alt_loop (alt # rest) transcript =
     (case py_in ''transcript'' alt of
        Inl e \<Rightarrow> Inl e
      | Inr b \<Rightarrow>
          if b then
            (case py_getitem alt ''transcript'' of
               Inl e \<Rightarrow> Inl e
             | Inr t \<Rightarrow> alt_loop rest (transcript @ [t]))
          else alt_loop rest transcript)"

text \<open>Lines 183-184, \<open>for channel in chunk['results']['channels']\<close>.\<close>

fun channel_loop :: "jval list \<Rightarrow> jval list \<Rightarrow> py_error + jval list" where
  "channel_loop [] transcript = Inr transcript"
| "channel_loop (channel # rest) transcript =
     (case py_in ''alternatives'' channel of
        Inl e \<Rightarrow> Inl e
      | Inr b \<Rightarrow>
          if b then
            (case py_getitem channel ''alternatives'' of
               Inl e \<Rightarrow> Inl e
             | Inr alts \<Rightarrow>
                 (case py_iter alts of
                    Inl e \<Rightarrow> Inl e
                  | Inr as \<Rightarrow>
                      (case alt_loop as transcript of
                         Inl e \<Rightarrow> Inl e
                       | Inr transcript' \<Rightarrow> channel_loop rest transcript')))
          else channel_loop rest transcript)"

text \<open>Lines 181-182, \<open>for chunk in chunks\<close>; \<open>and\<close> evaluates its right operand only when the
  left one is true.\<close>

fun chunks_loop :: "jval list \<Rightarrow> jval list \<Rightarrow> py_error + jval list" where
  "chunks_loop [] transcript = Inr transcript"
| "chunks_loop (chunk # rest) transcript =
     (case py_in ''results'' chunk of
        Inl e \<Rightarrow> Inl e
      | Inr b \<Rightarrow>
          if b then
            (case py_getitem chunk ''results'' of
               Inl e \<Rightarrow> Inl e
             | Inr res \<Rightarrow>
                 (case py_in ''channels'' res of
                    Inl e \<Rightarrow> Inl e
                  | Inr b' \<Rightarrow>
                      if b' then
                        (case py_getitem res ''channels'' of
                           Inl e \<Rightarrow> Inl e
                         | Inr chans \<Rightarrow>
                             (case py_iter chans of
                                Inl e \<Rightarrow> Inl e
                              | Inr cs \<Rightarrow>
                                  (case channel_loop cs transcript of
                                     Inl e \<Rightarrow> Inl e
                                   | Inr transcript' \<Rightarrow> chunks_loop rest transcript')))
                      else chunks_loop rest transcript))
          else chunks_loop rest transcript)"

text \<open>\<open>' '.join(transcript)\<close> raises \<open>TypeError\<close> unless every item is a string.\<close>

fun strs_of :: "jval list \<Rightarrow> py_error + string list" where
  "strs_of [] = Inr []"
| "strs_of (JStr s # rest) = (case strs_of rest of Inl e \<Rightarrow> Inl e | Inr ss \<Rightarrow> Inr (s # ss))"
| "strs_of (_ # rest) = Inl TypeError"

definition combine_chunks :: "jval list \<Rightarrow> py_error + string" where
  "combine_chunks chunks =
     (case chunks_loop chunks [] of
        Inl e \<Rightarrow> Inl e
      | Inr transcript \<Rightarrow>
          (case strs_of transcript of Inl e \<Rightarrow> Inl e | Inr ss \<Rightarrow> Inr (join '' '' ss)))"

text \<open>
  A Deepgram response as the API returns it: a list of channels, each with its list of
  alternatives, each alternative holding a transcript.
\<close>

definition dg_alternative :: "string \<Rightarrow> jval" where
  "dg_alternative t = JObj [(''transcript'', JStr t)]"

definition dg_channel :: "string list \<Rightarrow> jval" where
  "dg_channel alts = JObj [(''alternatives'', JList (map dg_alternative alts))]"

definition dg_response :: "string list list \<Rightarrow> jval" where
  "dg_response chans = JObj [(''results'', JObj [(''channels'', JList (map dg_channel chans))])]"

text \<open>
  Lines 149-155 of \<open>transcribe\<close>, the only caller: the chunk results that are not \<open>None\<close>
  are merged, and when there is none the caller returns \<open>None\<close> without merging.
\<close>

definition merge_valid_results :: "jval option list \<Rightarrow> (py_error + string) option" where
  "merge_valid_results results =
     (let valid_results = List.map_filter (\<lambda>r. r) results
      in if valid_results = [] then None else Some (combine_chunks valid_results))"

section \<open>app.py: \<open>process_url\<close>, \<open>generate_consolidated_analysis\<close> and \<open>main\<close>\<close>

text \<open>
  The modules behind the pipeline (download and conversion, speech-to-text, completion)
  are external services. They are parameters: each maps its arguments to what the call
  returns, or to the exception it raises. They stand for the module-level objects of
  lines 43-45, which are the ones \<open>process_url\<close> and \<open>generate_consolidated_analysis\<close> use.
\<close>

record collaborators =
  extract_audio :: "string \<Rightarrow> exn + (string option \<times> string option)"
  transcribe :: "string option \<Rightarrow> exn + string option"
  analyze_individual :: "string \<Rightarrow> string \<Rightarrow> exn + jval option"
  cleanup :: "string option \<Rightarrow> exn + unit"
  analyze_consolidated :: "jval list \<Rightarrow> string \<Rightarrow> exn + jval option"

text \<open>\<open>str(e)\<close>.\<close>

fun exn_str :: "exn \<Rightarrow> string" where
  "exn_str AsyncioTimeoutError = []"
| "exn_str (Exn msg) = msg"
| "exn_str (BaseExn msg) = msg"

text \<open>The dict \<open>process_url\<close> returns: \<open>{"error": ...}\<close> or \<open>{"transcript": ..., "analysis": ...}\<close>.\<close>

datatype item_result = ItemError string | ItemOk string jval

text \<open>The two fixed messages; their first letter is U+00C9, two bytes in UTF-8.\<close>

definition echec_transcription :: string where
  "echec_transcription = CHR 0xC3 # CHR 0x89 # ''chec de la transcription''"

definition echec_analyse :: string where
  "echec_analyse = CHR 0xC3 # CHR 0x89 # ''chec de l'' @ [CHR 0x27] @ ''analyse''"

text \<open>
  Lines 73-105, the body of the \<open>try\<close>: an exception raised by a stage leaves it. The
  writes to the metrics collector do not influence the result.
\<close>

definition process_url_body :: "collaborators \<Rightarrow> string \<Rightarrow> string \<Rightarrow> exn + item_result" where
  "process_url_body C url theme =
     (case extract_audio C url of
        Inl e \<Rightarrow> Inl e
      | Inr (audio_path, error) \<Rightarrow>
          (case (case error of None \<Rightarrow> None | Some msg \<Rightarrow> if msg \<noteq> [] then Some msg else None) of
             Some msg \<Rightarrow> Inr (ItemError msg)
           | None \<Rightarrow>
               (case transcribe C audio_path of
                  Inl e \<Rightarrow> Inl e
                | Inr transcript \<Rightarrow>
                    if transcript = None \<or> transcript = Some [] then Inr (ItemError echec_transcription)
                    else
                      (case analyze_individual C (the transcript) theme of
                         Inl e \<Rightarrow> Inl e
                       | Inr analysis \<Rightarrow>
                           if (case analysis of None \<Rightarrow> True | Some a \<Rightarrow> \<not> truthy a)
                           then Inr (ItemError echec_analyse)
                           else
                             (case cleanup C audio_path of
                                Inl e \<Rightarrow> Inl e
                              | Inr _ \<Rightarrow> Inr (ItemOk (the transcript) (the analysis)))))))"

text \<open>
  Lines 72-110. \<open>except Exception\<close> turns an exception of class \<open>Exception\<close> into the item's
  error; any other exception (\<open>asyncio.CancelledError\<close>, \<open>KeyboardInterrupt\<close>) is not
  caught and leaves \<open>process_url\<close>.
\<close>

definition process_url :: "collaborators \<Rightarrow> string \<Rightarrow> string \<Rightarrow> exn + item_result" where
  "process_url C url theme =
     (case process_url_body C url theme of
        Inl e \<Rightarrow> if is_exception e then Inr (ItemError (exn_str e)) else Inl e
      | Inr result \<Rightarrow> Inr result)"

text \<open>
  \<open>asyncio.gather(*tasks)\<close>. The tasks run concurrently and finish in some order:
  \<open>order\<close> lists their indices in the order they finish, a permutation of the indices.
  Each task is given by what it returns or raises. \<open>gather\<close> keeps a result per index as
  the tasks finish; when all have finished it returns the results by index. The first
  task that finishes with an exception makes \<open>gather\<close> raise it to the caller at once
  (\<open>return_exceptions\<close> is not set); the other tasks are not cancelled, but what they
  return no longer reaches the caller. How long the tasks take is not represented.
\<close>

fun gather_loop :: "nat list \<Rightarrow> (exn + 'a) list \<Rightarrow> (nat \<rightharpoonup> 'a) \<Rightarrow> exn + (nat \<rightharpoonup> 'a)" where
  "gather_loop [] tasks buf = Inr buf"
| "gather_loop (i # order) tasks buf =
     (case tasks ! i of
        Inl e \<Rightarrow> Inl e
      | Inr r \<Rightarrow> gather_loop order tasks (buf(i \<mapsto> r)))"

definition gather :: "nat list \<Rightarrow> (exn + 'a) list \<Rightarrow> exn + 'a list" where
  "gather order tasks =
     (case gather_loop order tasks Map.empty of
        Inl e \<Rightarrow> Inl e
      | Inr buf \<Rightarrow> Inr (map (\<lambda>i. the (buf i)) [0 ..< length tasks]))"

text \<open>\<open>order\<close> is an order in which \<open>n\<close> tasks can finish: every index once.\<close>

definition completion_order :: "nat list \<Rightarrow> nat \<Rightarrow> bool" where
  "completion_order order n \<longleftrightarrow> sort order = [0 ..< n]"

text \<open>Lines 126-127: one task per URL.\<close>

definition fan_out ::
  "collaborators \<Rightarrow> nat list \<Rightarrow> string list \<Rightarrow> string \<Rightarrow> exn + item_result list" where
  "fan_out C order urls theme = gather order (map (\<lambda>url. process_url C url theme) urls)"


fun error_of :: "item_result \<Rightarrow> string option" where
  "error_of (ItemError msg) = Some msg"
| "error_of (ItemOk t a) = None"

fun analysis_of :: "item_result \<Rightarrow> jval option" where
  "analysis_of (ItemError msg) = None"
| "analysis_of (ItemOk t a) = Some a"

text \<open>
  The handlers of lines 147-150: an exception of class \<open>Exception\<close> gives \<open>None\<close>, any
  other leaves the function.
\<close>

definition handled :: "exn \<Rightarrow> exn + jval option" where
  "handled e = (if is_exception e then Inr None else Inl e)"

text \<open>
  Lines 124-150. The result is the list of calls made to \<open>analyzer.analyze_consolidated\<close>
  (with their arguments) and the value returned or the exception raised. The function
  processes every URL itself (line 126) and keeps the items' results to itself; \<open>order\<close>
  is the order in which its tasks finish.
\<close>

definition generate_consolidated_analysis ::
  "collaborators \<Rightarrow> nat list \<Rightarrow> string list \<Rightarrow> string
     \<Rightarrow> (jval list \<times> string) list \<times> (exn + jval option)" where
  "generate_consolidated_analysis C order urls theme =
     (case fan_out C order urls theme of
        Inl e \<Rightarrow> ([], handled e)
      | Inr results \<Rightarrow>
          (let errors = List.map_filter error_of results in
           if errors \<noteq> [] then ([], Inr None)
           else
             (case those (map analysis_of results) of
                None \<Rightarrow> ([], Inr None)
              | Some analyses \<Rightarrow>
                  (case analyze_consolidated C analyses theme of
                     Inl e \<Rightarrow> ([(analyses, theme)], handled e)
                   | Inr consolidated \<Rightarrow> ([(analyses, theme)], Inr consolidated)))))"

text \<open>
  The keys of \<open>st.session_state\<close> that app.py reads and writes; a key that is not set is
  \<open>None\<close>. The state outlives a run of \<open>main\<close>: Streamlit runs \<open>main\<close> again on every
  interaction and on every \<open>st.experimental_rerun()\<close>, with the state the run before
  left.
\<close>

record session_state =
  processing :: "bool option"
  results :: "item_result list option"
  audio_extractor :: "unit option"
  transcriber :: "unit option"
  analyzer :: "unit option"
  consolidated_analysis :: "jval option"

text \<open>
  The constructors, as functions of the number of arguments of the call. Each \<open>__init__\<close>
  takes two parameters besides \<open>self\<close>, none with a default (audio.py line 30,
  transcription.py line 20, analysis.py line 25): a call with another number of
  arguments raises \<open>TypeError\<close> before the body runs.
\<close>

definition AudioExtractor :: "nat \<Rightarrow> py_error + unit" where
  "AudioExtractor given = (if given = 2 then Inr () else Inl TypeError)"

definition Transcriber :: "nat \<Rightarrow> py_error + unit" where
  "Transcriber given = (if given = 2 then Inr () else Inl TypeError)"

definition Analyzer :: "nat \<Rightarrow> py_error + unit" where
  "Analyzer given = (if given = 2 then Inr () else Inl TypeError)"

text \<open>
  Lines 47-58. The result is the session state as the function leaves it and the
  exception it raises, if any: \<open>AudioExtractor()\<close> has no argument, \<open>Transcriber(key)\<close> and
  \<open>Analyzer(key)\<close> have one.
\<close>

definition init_session_state :: "session_state \<Rightarrow> session_state \<times> py_error option" where
  "init_session_state ss0 =
     (let ss1 = (if processing ss0 = None then ss0\<lparr>processing := Some False\<rparr> else ss0);
          ss2 = (if results ss1 = None then ss1\<lparr>results := Some []\<rparr> else ss1)
      in case (if audio_extractor ss2 = None
               then (case AudioExtractor 0 of
                       Inl e \<Rightarrow> Inl e | Inr obj \<Rightarrow> Inr (ss2\<lparr>audio_extractor := Some obj\<rparr>))
               else Inr ss2) of
           Inl e \<Rightarrow> (ss2, Some e)
         | Inr ss3 \<Rightarrow>
             (case (if transcriber ss3 = None
                    then (case Transcriber 1 of
                            Inl e \<Rightarrow> Inl e | Inr obj \<Rightarrow> Inr (ss3\<lparr>transcriber := Some obj\<rparr>))
                    else Inr ss3) of
                Inl e \<Rightarrow> (ss3, Some e)
              | Inr ss4 \<Rightarrow>
                  (case (if analyzer ss4 = None
                         then (case Analyzer 1 of
                                 Inl e \<Rightarrow> Inl e | Inr obj \<Rightarrow> Inr (ss4\<lparr>analyzer := Some obj\<rparr>))
                         else Inr ss4) of
                     Inl e \<Rightarrow> (ss4, Some e)
                   | Inr ss5 \<Rightarrow> (ss5, None))))"

text \<open>
  How a run of \<open>main\<close> leaves lines 152-225: \<open>init_session_state\<close> raises; one of the two
  \<open>return\<close>s after validation; \<open>st.experimental_rerun()\<close> stops the run and starts
  \<open>main\<close> again (Streamlit raises a control exception that is not an \<open>Exception\<close>, so
  line 221 does not catch it); an exception that is not an \<open>Exception\<close> leaves \<open>main\<close>;
  or control reaches the display code of line 227.
\<close>

datatype main_end = InitRaises py_error | ReturnsEarly | Reruns | Propagates exn | ReachesDisplay

record main_run =
  consolidation_calls :: "(jval list \<times> string) list"
  end_of_run :: main_end
  session :: session_state

text \<open>Line 221: \<open>except Exception\<close> around the processing; then control goes on to line 227.\<close>

definition main_except :: "exn \<Rightarrow> main_end" where
  "main_except e = (if is_exception e then ReachesDisplay else Propagates e)"

text \<open>
  Lines 208-213, over what \<open>future.result()\<close> returns or raises for each future. The
  result of the first future is appended to the session's results and line 213 stops
  the run: the loop body never runs a second time. (A session without the key
  \<open>results\<close> would make \<open>append\<close> raise \<open>AttributeError\<close>, an \<open>Exception\<close>.) The result is
  the session state and how the loop was left, \<open>None\<close> if it ran to its end.
\<close>

fun results_loop ::
  "(exn + item_result) list \<Rightarrow> session_state \<Rightarrow> session_state \<times> main_end option" where
  "results_loop [] ss = (ss, None)"
| "results_loop (future # futures) ss =
     (case future of
        Inl e \<Rightarrow> (ss, Some (main_except e))
      | Inr result \<Rightarrow>
          (case results ss of
             None \<Rightarrow> (ss, Some ReachesDisplay)
           | Some rs \<Rightarrow> (ss\<lparr>results := Some (rs @ [result])\<rparr>, Some Reruns)))"

text \<open>
  Lines 202-205. Every future runs \<open>lambda: asyncio.run(process_url(url, theme))\<close>, and the
  lambda reads \<open>url\<close> when a worker thread runs it, not when it is submitted: the
  \<open>i\<close>-th future processes the URL the comprehension has reached by then, the \<open>i\<close>-th
  or a later one. \<open>seen i\<close> is the position it finds.
\<close>

definition submit_all ::
  "collaborators \<Rightarrow> (nat \<Rightarrow> nat) \<Rightarrow> string list \<Rightarrow> string \<Rightarrow> (exn + item_result) list" where
  "submit_all C seen valid_urls theme =
     map (\<lambda>i. process_url C (valid_urls ! max i (min (seen i) (length valid_urls - 1))) theme)
         [0 ..< length valid_urls]"

text \<open>Line 218: \<open>if consolidated\<close>.\<close>

fun store_consolidated :: "jval option \<Rightarrow> session_state \<Rightarrow> session_state" where
  "store_consolidated None ss = ss"
| "store_consolidated (Some c) ss = (if truthy c then ss\<lparr>consolidated_analysis := Some c\<rparr> else ss)"

text \<open>
  Lines 152-225 of \<open>main\<close>. The form's content arrives validated: \<open>submitted\<close> is the
  button, \<open>valid_urls\<close> and \<open>valid_theme\<close> are what \<open>validate_urls\<close> and \<open>validate_theme\<close>
  return on the text entered. \<open>finally\<close> (line 225) resets \<open>processing\<close> however the
  \<open>try\<close> is left. \<open>seen\<close> and \<open>order\<close> are the scheduling of the worker threads and of
  the tasks of line 217. The display code of lines 227-273 calls neither the pipeline
  nor the consolidation and is not part of the model.
\<close>

definition main ::
  "collaborators \<Rightarrow> (nat \<Rightarrow> nat) \<Rightarrow> nat list \<Rightarrow> bool \<Rightarrow> string list \<Rightarrow> string \<Rightarrow> bool
     \<Rightarrow> session_state \<Rightarrow> main_run" where
  "main C seen order submitted valid_urls theme valid_theme ss0 =
     (case init_session_state ss0 of
        (ss1, Some e) \<Rightarrow> \<lparr>consolidation_calls = [], end_of_run = InitRaises e, session = ss1\<rparr>
      | (ss1, None) \<Rightarrow>
          if \<not> submitted
          then \<lparr>consolidation_calls = [], end_of_run = ReachesDisplay, session = ss1\<rparr>
          else if valid_urls = []
          then \<lparr>consolidation_calls = [], end_of_run = ReturnsEarly, session = ss1\<rparr>
          else if \<not> valid_theme
          then \<lparr>consolidation_calls = [], end_of_run = ReturnsEarly, session = ss1\<rparr>
          else
            (case results_loop (submit_all C seen valid_urls theme) (ss1\<lparr>processing := Some True\<rparr>) of
               (ss2, Some e) \<Rightarrow>
                 \<lparr>consolidation_calls = [], end_of_run = e,
                  session = ss2\<lparr>processing := Some False\<rparr>\<rparr>
             | (ss2, None) \<Rightarrow>
                 if length valid_urls > 1
                 then
                   (case generate_consolidated_analysis C order valid_urls theme of
                      (calls, Inl e) \<Rightarrow>
                        \<lparr>consolidation_calls = calls, end_of_run = Propagates e,
                         session = ss2\<lparr>processing := Some False\<rparr>\<rparr>
                    | (calls, Inr consolidated) \<Rightarrow>
                        \<lparr>consolidation_calls = calls, end_of_run = ReachesDisplay,
                         session = (store_consolidated consolidated ss2)\<lparr>processing := Some False\<rparr>\<rparr>)
                 else \<lparr>consolidation_calls = [], end_of_run = ReachesDisplay,
                       session = ss2\<lparr>processing := Some False\<rparr>\<rparr>))"

text \<open>Collaborators for examples: every stage succeeds, except that the download of the
  URL \<open>''bad''\<close> reports an error, the transcription of the URL \<open>''stop''\<close> is cancelled
  and removing the audio of the URL \<open>''locked''\<close> raises an \<open>Exception\<close>.\<close>

definition demo :: collaborators where
  "demo = \<lparr> extract_audio = (\<lambda>url. if url = ''bad'' then Inr (None, Some ''URL YouTube invalide'')
                                     else Inr (Some (url @ ''.wav''), None)),
            transcribe = (\<lambda>p. if p = Some ''stop.wav'' then Inl (BaseExn ''CancelledError'')
                               else Inr (Some (''text of '' @ the p))),
            analyze_individual = (\<lambda>t theme. Inr (Some (JObj [(''resume'', JList [JStr t])]))),
            cleanup = (\<lambda>p. if p = Some ''locked.wav'' then Inl (Exn ''PermissionError'') else Inr ()),
            analyze_consolidated = (\<lambda>as theme. Inr (Some (JObj [(''n'', JNum (of_nat (length as)))]))) \<rparr>"

text \<open>Two URLs that pass validation, and a session as Streamlit creates it and as one
  that holds the three modules already.\<close>

definition two_urls :: "string list" where
  "two_urls = [''https://youtu.be/a'', ''https://youtu.be/b'']"



definition new_session :: session_state where
  "new_session = \<lparr> processing = None, results = None, audio_extractor = None,
                   transcriber = None, analyzer = None, consolidated_analysis = None \<rparr>"

definition loaded_session :: session_state where
  "loaded_session = \<lparr> processing = Some False, results = Some [], audio_extractor = Some (),
                      transcriber = Some (), analyzer = Some (), consolidated_analysis = None \<rparr>"

section \<open>src/utils/metrics.py: \<open>QualityMetrics\<close> and \<open>MetricsCollector\<close>\<close>

record quality_metrics =
  operation :: string
  start_time :: rat
  end_time :: "rat option"
  duration :: "rat option"
  success :: bool
  error :: "string option"
  retries :: int
  input_size :: "int option"
  output_size :: "int option"
  api_calls :: int
  api_tokens :: int
  custom_metrics :: "(string \<times> rat) list"

text \<open>\<open>QualityMetrics(operation=...)\<close> at clock time \<open>now\<close>.\<close>

definition new_metrics :: "string \<Rightarrow> rat \<Rightarrow> quality_metrics" where
  "new_metrics name now =
     \<lparr> operation = name, start_time = now, end_time = None, duration = None, success = True,
       error = None, retries = 0, input_size = None, output_size = None, api_calls = 0,
       api_tokens = 0, custom_metrics = [] \<rparr>"

definition complete :: "rat \<Rightarrow> bool \<Rightarrow> string option \<Rightarrow> quality_metrics \<Rightarrow> quality_metrics" where
  "complete now ok err m =
     m\<lparr> end_time := Some now, duration := Some (now - start_time m), success := ok, error := err \<rparr>"

fun opt_json :: "('a \<Rightarrow> jval) \<Rightarrow> 'a option \<Rightarrow> jval" where
  "opt_json f None = JNull"
| "opt_json f (Some x) = f x"

definition to_dict :: "quality_metrics \<Rightarrow> jval" where
  "to_dict m =
     JObj [(''operation'', JStr (operation m)),
           (''duration'', opt_json JNum (duration m)),
           (''success'', JBool (success m)),
           (''error'', opt_json JStr (error m)),
           (''retries'', JNum (of_int (retries m))),
           (''input_size'', opt_json (\<lambda>n. JNum (of_int n)) (input_size m)),
           (''output_size'', opt_json (\<lambda>n. JNum (of_int n)) (output_size m)),
           (''api_calls'', JNum (of_int (api_calls m))),
           (''api_tokens'', JNum (of_int (api_tokens m))),
           (''custom_metrics'', JObj (map (\<lambda>kv. (fst kv, JNum (snd kv))) (custom_metrics m)))]"

text \<open>
  The local time \<open>time.strftime\<close> formats: it has no field finer than the second.
  \<open>%Y%m%d_%H%M%S\<close> writes the year on four digits and the other fields on two.
\<close>

record tm =
  tm_year :: nat
  tm_mon :: nat
  tm_mday :: nat
  tm_hour :: nat
  tm_min :: nat
  tm_sec :: nat

definition digit :: "nat \<Rightarrow> char" where
  "digit d = ''0123456789'' ! (d mod 10)"

definition pad2 :: "nat \<Rightarrow> string" where
  "pad2 n = [digit (n div 10), digit n]"

definition pad4 :: "nat \<Rightarrow> string" where
  "pad4 n = [digit (n div 1000), digit (n div 100), digit (n div 10), digit n]"

definition strftime :: "tm \<Rightarrow> string" where
  "strftime t = pad4 (tm_year t) @ pad2 (tm_mon t) @ pad2 (tm_mday t) @ ''_''
                @ pad2 (tm_hour t) @ pad2 (tm_min t) @ pad2 (tm_sec t)"

text \<open>
  The metrics directory: file names with what each file holds, a JSON value or text
  that \<open>json.load\<close> rejects. \<open>open(filepath, "w")\<close> replaces the content of an existing file.
\<close>

datatype file_content = Json jval | Unparseable

fun write_file :: "string \<Rightarrow> file_content \<Rightarrow> (string \<times> file_content) list \<Rightarrow> (string \<times> file_content) list" where
  "write_file name c [] = [(name, c)]"
| "write_file name c ((name', c') # files) =
     (if name = name' then (name, c) # files else (name', c') # write_file name c files)"

definition filename :: "string \<Rightarrow> tm \<Rightarrow> string" where
  "filename op t = op @ ''_'' @ strftime t @ ''.json''"

text \<open>
  Lines 131-143. \<open>local\<close> and \<open>now\<close> are the clock's readings; \<open>writable\<close> tells whether
  opening the file succeeds (when it does not, the error is logged and nothing is written).
  The result is the metrics object as the call leaves it and the directory.
\<close>

definition save_metrics ::
  "(string \<Rightarrow> bool) \<Rightarrow> tm \<Rightarrow> rat \<Rightarrow> quality_metrics \<Rightarrow> (string \<times> file_content) list
     \<Rightarrow> quality_metrics \<times> (string \<times> file_content) list" where
  "save_metrics writable local now metrics files =
     (let metrics1 = (if end_time metrics = None \<or> end_time metrics = Some 0
                      then complete now True None metrics else metrics);
          name = filename (operation metrics1) local
      in (metrics1, if writable name then write_file name (Json (to_dict metrics1)) files else files))"

text \<open>\<open>Path.stem\<close> of a name matched by \<open>*.json\<close>, and the glob itself.\<close>

definition stem :: "string \<Rightarrow> string" where
  "stem name = (if length name > 5 then take (length name - 5) name else name)"

definition glob_json :: "(string \<times> file_content) list \<Rightarrow> (string \<times> file_content) list" where
  "glob_json files = filter (\<lambda>f. suffix ''.json'' (fst f)) files"

record totals =
  total_operations :: nat
  successful_operations :: nat
  total_duration :: rat
  total_retries :: rat
  total_api_calls :: rat
  total_api_tokens :: rat

text \<open>\<open>metrics.get(key, 0)\<close>.\<close>

fun py_get0 :: "jval \<Rightarrow> string \<Rightarrow> py_error + jval" where
  "py_get0 (JObj kvs) k = Inr (case map_of kvs k of None \<Rightarrow> JNum 0 | Some v \<Rightarrow> v)"
| "py_get0 _ k = Inl TypeError"

definition add_field :: "rat \<Rightarrow> jval \<Rightarrow> string \<Rightarrow> py_error + rat" where
  "add_field t metrics k = (case py_get0 metrics k of Inl e \<Rightarrow> Inl e | Inr v \<Rightarrow> py_add t v)"

text \<open>
  Lines 167-181 for one file. An exception anywhere in the \<open>try\<close> block is logged and the
  loop goes on; what the block had already added stays added.
\<close>

definition read_one :: "file_content \<Rightarrow> totals \<Rightarrow> totals" where
  "read_one content T =
     (case content of
        Unparseable \<Rightarrow> T
      | Json metrics \<Rightarrow>
          (let T1 = T\<lparr>total_operations := total_operations T + 1\<rparr> in
           case py_getitem metrics ''success'' of
             Inl e \<Rightarrow> T1
           | Inr s \<Rightarrow>
               (let T2 = (if truthy s
                          then T1\<lparr>successful_operations := successful_operations T1 + 1\<rparr> else T1) in
                case add_field (total_duration T2) metrics ''duration'' of
                  Inl e \<Rightarrow> T2
                | Inr d \<Rightarrow>
                    (let T3 = T2\<lparr>total_duration := d\<rparr> in
                     case add_field (total_retries T3) metrics ''retries'' of
                       Inl e \<Rightarrow> T3
                     | Inr r \<Rightarrow>
                         (let T4 = T3\<lparr>total_retries := r\<rparr> in
                          case add_field (total_api_calls T4) metrics ''api_calls'' of
                            Inl e \<Rightarrow> T4
                          | Inr c \<Rightarrow>
                              (let T5 = T4\<lparr>total_api_calls := c\<rparr> in
                               case add_field (total_api_tokens T5) metrics ''api_tokens'' of
                                 Inl e \<Rightarrow> T5
                               | Inr k \<Rightarrow> T5\<lparr>total_api_tokens := k\<rparr>))))))"

fun summary_loop :: "(string \<times> file_content) list \<Rightarrow> totals \<Rightarrow> totals" where
  "summary_loop [] T = T"
| "summary_loop (file # rest) T = summary_loop rest (read_one (snd file) T)"

record summary =
  sum_total_operations :: nat
  success_rate :: rat
  average_duration :: rat
  average_retries :: rat
  sum_total_api_calls :: rat
  sum_total_api_tokens :: rat

text \<open>Lines 155-157: the files the summary reads. \<open>if operation:\<close> is false for \<open>None\<close> and
  for the empty string.\<close>

definition selected_files :: "(string \<times> file_content) list \<Rightarrow> string option \<Rightarrow> (string \<times> file_content) list" where
  "selected_files files op =
     (case op of
        None \<Rightarrow> glob_json files
      | Some name \<Rightarrow>
          if name \<noteq> [] then filter (\<lambda>f. prefix name (stem (fst f))) (glob_json files)
          else glob_json files)"

definition get_metrics_summary :: "(string \<times> file_content) list \<Rightarrow> string option \<Rightarrow> summary" where
  "get_metrics_summary files op =
     (let T = summary_loop (selected_files files op)
                \<lparr> total_operations = 0, successful_operations = 0, total_duration = 0,
                  total_retries = 0, total_api_calls = 0, total_api_tokens = 0 \<rparr>;
          n = total_operations T
      in \<lparr> sum_total_operations = n,
           success_rate = (if n > 0 then of_nat (successful_operations T) / of_nat n else 0),
           average_duration = (if n > 0 then total_duration T / of_nat n else 0),
           average_retries = (if n > 0 then total_retries T / of_nat n else 0),
           sum_total_api_calls = total_api_calls T,
           sum_total_api_tokens = total_api_tokens T \<rparr>)"


text \<open>
  The summary of a list of records in the words of the specification: total count,
  success rate, average duration, average retries, summed API calls, summed API tokens.
\<close>

definition summary_of :: "quality_metrics list \<Rightarrow> summary" where
  "summary_of ms =
     \<lparr> sum_total_operations = length ms,
       success_rate = (if ms = [] then 0 else of_nat (length (filter success ms)) / of_nat (length ms)),
       average_duration = (if ms = [] then 0
                           else sum_list (map (\<lambda>m. the (duration m)) ms) / of_nat (length ms)),
       average_retries = (if ms = [] then 0
                          else sum_list (map (\<lambda>m. of_int (retries m)) ms) / of_nat (length ms)),
       sum_total_api_calls = sum_list (map (\<lambda>m. of_int (api_calls m)) ms),
       sum_total_api_tokens = sum_list (map (\<lambda>m. of_int (api_tokens m)) ms) \<rparr>"

text \<open>
  A directory given by what its files hold: under each name a record as \<open>save_metrics\<close>
  writes it (\<open>Some m\<close>), or text that does not parse (\<open>None\<close>). A record is finalized when
  its duration is set, as \<open>complete\<close> does.
\<close>

fun stored_content :: "quality_metrics option \<Rightarrow> file_content" where
  "stored_content None = Unparseable"
| "stored_content (Some m) = Json (to_dict m)"

definition stored :: "(string \<times> quality_metrics option) list \<Rightarrow> (string \<times> file_content) list" where
  "stored recs = map (\<lambda>r. (fst r, stored_content (snd r))) recs"

fun finalized :: "quality_metrics option \<Rightarrow> bool" where
  "finalized None = True"
| "finalized (Some m) = (duration m \<noteq> None)"

text \<open>The records of the \<open>*.json\<close> files whose stem starts with \<open>op\<close>.\<close>

definition matching :: "string \<Rightarrow> (string \<times> quality_metrics option) list \<Rightarrow> quality_metrics list" where
  "matching op recs =
     List.map_filter snd (filter (\<lambda>r. suffix ''.json'' (fst r) \<and> prefix op (stem (fst r))) recs)"

text \<open>Broken-down times whose fields fit the widths of the format.\<close>

definition valid_tm :: "tm \<Rightarrow> bool" where
  "valid_tm t \<longleftrightarrow> tm_year t < 10000 \<and> tm_mon t < 100 \<and> tm_mday t < 100
                 \<and> tm_hour t < 100 \<and> tm_min t < 100 \<and> tm_sec t < 100"

text \<open>Examples: one second of the clock, and records of three operations.\<close>

definition noon :: tm where
  "noon = \<lparr> tm_year = 2024, tm_mon = 5, tm_mday = 1, tm_hour = 12, tm_min = 0, tm_sec = 0 \<rparr>"

definition first_chunk_metrics :: quality_metrics where
  "first_chunk_metrics = (new_metrics ''analyze_chunk'' 5)\<lparr>api_calls := 1, api_tokens := 100\<rparr>"

definition second_chunk_metrics :: quality_metrics where
  "second_chunk_metrics = (new_metrics ''analyze_chunk'' 6)\<lparr>api_calls := 1, api_tokens := 200\<rparr>"

definition transcribe_metrics :: quality_metrics where
  "transcribe_metrics = (new_metrics ''transcribe'' 1)\<lparr>retries := 2\<rparr>"

definition transcribe_chunk_metrics :: quality_metrics where
  "transcribe_chunk_metrics =
     complete 4 False (Some ''boom'') ((new_metrics ''transcribe_chunk'' 2)\<lparr>api_calls := 1\<rparr>)"

definition example_dir :: "(string \<times> file_content) list" where
  "example_dir =
     snd (save_metrics (\<lambda>_. True) noon 9 first_chunk_metrics
       (snd (save_metrics (\<lambda>_. True) noon 8 transcribe_chunk_metrics
         (snd (save_metrics (\<lambda>_. True) noon 7 transcribe_metrics [])))))"

text \<open>The same directory by its records, with a file that does not parse beside them.\<close>

definition example_records :: "(string \<times> quality_metrics option) list" where
  "example_records =
     [(filename ''transcribe'' noon, Some (complete 7 True None transcribe_metrics)),
      (filename ''transcribe_chunk'' noon, Some transcribe_chunk_metrics),
      (filename ''analyze_chunk'' noon, Some (complete 9 True None first_chunk_metrics)),
      (''transcribe_notes.json'', None)]"

section \<open>Notions used to state the properties of the merges and of the splitter\<close>

text \<open>The length of the sentences of a list once joined by \<open>''. ''\<close>, plus two.\<close>

definition lenj :: "string list \<Rightarrow> nat" where
  "lenj xs = sum_list (map length xs) + 2 * length xs"

text \<open>
  Field \<open>k\<close> of a chunk-level record: its items when the field holds a list; whether the
  field holds a list; whether the record has the field at all.
\<close>

definition items :: "jval \<Rightarrow> string \<Rightarrow> jval list" where
  "items a k = (case py_getitem a k of Inr (JList xs) \<Rightarrow> xs | _ \<Rightarrow> [])"

definition has_list :: "jval \<Rightarrow> string \<Rightarrow> bool" where
  "has_list a k = (case py_getitem a k of Inr (JList xs) \<Rightarrow> True | _ \<Rightarrow> False)"

definition has_field :: "jval \<Rightarrow> string \<Rightarrow> bool" where
  "has_field a k = (case py_getitem a k of Inr v \<Rightarrow> True | Inl e \<Rightarrow> False)"

text \<open>Two chunk-level analyses with every field of the schema.\<close>

definition c1 :: jval where
  "c1 = JObj [(''identification'', JStr ''audition 1''), (''participants'', JList [JStr ''A'']),
              (''structure'', JStr ''plan''), (''resume'', JList [JStr ''r1'', JStr ''r2'']),
              (''echanges'', JList []), (''citations'', JList [JStr ''q1'']),
              (''problematiques'', JList []), (''positionnements'', JList []),
              (''signaux_faibles'', JList []), (''annexes'', JList [])]"

definition c2 :: jval where
  "c2 = JObj [(''identification'', JStr ''other''), (''participants'', JList [JStr ''B'']),
              (''structure'', JStr ''plan 2''), (''resume'', JList [JStr ''r3'']),
              (''echanges'', JList [JStr ''e1'']), (''citations'', JList [JStr ''q2'']),
              (''problematiques'', JList []), (''positionnements'', JList []),
              (''signaux_faibles'', JList []), (''annexes'', JList [])]"

section \<open>Properties of \<open>async_retry\<close>\<close>

lemma upt_eq_Cons: "a < b \<Longrightarrow> [a ..< b] = a # [Suc a ..< b]"
  by (simp add: upt_rec)

text \<open>Two runs under the repository's configuration.\<close>

lemma run_hanging:
  "wrapper repo_params hanging =
     ([Attempt 0 300, Attempt 1 300, Attempt 2 300, Attempt 3 300],
      RetryError AsyncioTimeoutError)"
  by (simp add: wrapper_def repo_params_def hanging_def upt_eq_Cons)

lemma run_failing:
  "wrapper (repo_params\<lparr>on_retry := True\<rparr>) failing =
     ([Attempt 0 0, OnRetry (Exn ''ConnectionError'') 0, Sleep 1,
       Attempt 1 0, OnRetry (Exn ''ConnectionError'') 1, Sleep 2,
       Attempt 2 0, OnRetry (Exn ''ConnectionError'') 2, Sleep 4,
       Attempt 3 0], RetryError (Exn ''ConnectionError''))"
  by (simp add: wrapper_def repo_params_def failing_def upt_eq_Cons)

subsection \<open>Operations that raise on every attempt\<close>

lemma loop_failing:
  assumes "\<forall>k. a \<le> k \<and> k \<le> n \<longrightarrow> caught P f k (c k)"
    and "max_retries P = int n" and "a \<le> n"
  shows "attempts (fst (wrapper_loop P f [a ..< Suc n] cur lastx)) = [a ..< Suc n]
       \<and> sleeps (fst (wrapper_loop P f [a ..< Suc n] cur lastx))
           = map (\<lambda>k. cur * backoff P ^ (k - a)) [a ..< n]
       \<and> snd (wrapper_loop P f [a ..< Suc n] cur lastx) = RetryError (c n)"
  using assms
proof (induction "n - a" arbitrary: a cur lastx)
  case 0
  then have an: "a = n" by simp
  from 0(2) an have "caught P f n (c n)" by simp
  then obtain d where d: "run_attempt (timeout P) (f n) = (d, Raised (c n))"
    and ne: "c n \<noteq> AsyncioTimeoutError" and ex: "exceptions P (c n)"
    by (cases "run_attempt (timeout P) (f n)") (auto simp: caught_def)
  show ?case using an d ne ex 0(3) by simp
next
  case (Suc m)
  then have lt: "a < n" by simp
  from Suc(3) lt have "caught P f a (c a)" by simp
  then obtain d where d: "run_attempt (timeout P) (f a) = (d, Raised (c a))"
    and ne: "c a \<noteq> AsyncioTimeoutError" and ex: "exceptions P (c a)"
    by (cases "run_attempt (timeout P) (f a)") (auto simp: caught_def)
  have m: "m = n - Suc a" using Suc(2) by simp
  have IH: "attempts (fst (wrapper_loop P f [Suc a ..< Suc n] cur' lastx')) = [Suc a ..< Suc n]
       \<and> sleeps (fst (wrapper_loop P f [Suc a ..< Suc n] cur' lastx'))
           = map (\<lambda>k. cur' * backoff P ^ (k - Suc a)) [Suc a ..< n]
       \<and> snd (wrapper_loop P f [Suc a ..< Suc n] cur' lastx') = RetryError (c n)" for cur' lastx'
    using Suc(1)[OF m, of cur' lastx'] Suc(3,4) lt by simp
  have unf: "[a ..< Suc n] = a # [Suc a ..< Suc n]" using lt by (simp add: upt_rec)
  have unf2: "[a ..< n] = a # [Suc a ..< n]" using lt by (simp add: upt_rec)
  have pw: "map (\<lambda>k. cur * backoff P * backoff P ^ (k - Suc a)) [Suc a ..< n]
          = map (\<lambda>k. cur * backoff P ^ (k - a)) [Suc a ..< n]"
  proof (rule map_cong[OF refl])
    fix k assume "k \<in> set [Suc a ..< n]"
    then have "k - a = Suc (k - Suc a)" by auto
    then show "cur * backoff P * backoff P ^ (k - Suc a) = cur * backoff P ^ (k - a)" by simp
  qed
  show ?case
    unfolding unf unf2 using d ne ex lt Suc(4) IH[of "cur * backoff P" "Some (c a)"] pw
    by (simp add: split_beta)
qed

lemma geometric_sleeps:
  fixes b :: rat
  assumes "b \<noteq> 1"
  shows "sum_list (map (\<lambda>k. d * b ^ (k - 0)) [0 ..< n]) = d * (b ^ n - 1) / (b - 1)"
proof -
  have "sum_list (map (\<lambda>k. d * b ^ (k - 0)) [0 ..< n]) = (\<Sum>k<n. d * b ^ k)"
    by (simp add: interv_sum_list_conv_sum_set_nat atLeast0LessThan)
  also have "\<dots> = d * (\<Sum>k<n. b ^ k)" by (simp add: sum_distrib_left)
  also have "\<dots> = d * ((b ^ n - 1) / (b - 1))" using assms by (simp add: geometric_sum)
  finally show ?thesis by simp
qed

text \<open>
  When every attempt ends in the \<open>except exceptions\<close> clause, the wrapper makes
  \<open>max_retries + 1\<close> attempts, sleeps \<open>delay * backoff ^ k\<close> after attempt \<open>k < max_retries\<close>
  and raises \<open>RetryError\<close> from the last exception.
\<close>

lemma retry_exhausted_on_raise:
  assumes "0 \<le> max_retries P"
    and "\<forall>k \<le> nat (max_retries P). caught P f k (c k)"
  shows "attempts (fst (wrapper P f)) = [0 ..< nat (max_retries P) + 1]
       \<and> snd (wrapper P f) = RetryError (c (nat (max_retries P)))
       \<and> sleeps (fst (wrapper P f)) = map (\<lambda>k. delay P * backoff P ^ k) [0 ..< nat (max_retries P)]
       \<and> (backoff P \<noteq> 1 \<longrightarrow> sum_list (sleeps (fst (wrapper P f)))
             = delay P * (backoff P ^ nat (max_retries P) - 1) / (backoff P - 1))"
proof -
  define n where "n = nat (max_retries P)"
  have n: "max_retries P = int n" using assms(1) by (simp add: n_def)
  have up: "nat (max_retries P + 1) = Suc n" using assms(1) by (simp add: n_def)
  have c: "\<forall>k. 0 \<le> k \<and> k \<le> n \<longrightarrow> caught P f k (c k)" using assms(2) by (simp add: n_def)
  note L = loop_failing[OF c n, of "delay P" None, simplified]
  have s: "sleeps (fst (wrapper P f)) = map (\<lambda>k. delay P * backoff P ^ (k - 0)) [0 ..< n]"
    using L by (simp add: wrapper_def up)
  show ?thesis
    using L s geometric_sleeps[of "backoff P" "delay P" n]
    by (simp add: wrapper_def up n_def[symmetric])
qed

text \<open>
  Claim C1, at the input where it fails. An operation that never answers within the
  timeout fails on every attempt with a timeout, which the wrapper retries. Under the
  repository's configuration the wrapper makes its four attempts and raises
  \<open>RetryError\<close> from the last timeout, but it never sleeps between the attempts: the
  cumulative delay is 0, below \<open>delay * (backoff ^ max_retries - 1) / (backoff - 1) = 7\<close>.
\<close>

theorem timeouts_retried_without_sleep:
  "attempts (fst (wrapper repo_params hanging)) = [0, 1, 2, 3]
   \<and> snd (wrapper repo_params hanging) = RetryError AsyncioTimeoutError
   \<and> sum_list (sleeps (fst (wrapper repo_params hanging))) = 0
   \<and> sum_list (sleeps (fst (wrapper repo_params hanging)))
       < delay repo_params * (backoff repo_params ^ nat (max_retries repo_params) - 1)
           / (backoff repo_params - 1)"
  by (simp add: run_hanging) (simp add: repo_params_def)

subsection \<open>What \<open>timeout\<close> bounds\<close>












text \<open>
  A \<open>TimeoutContext\<close> does keep its sleeps within its budget: a sleep started before the
  deadline either raises at once or ends by the deadline. The wrapper sleeps with
  \<open>asyncio.sleep\<close> and never consults one; nothing in the repository creates one.
\<close>

lemma context_sleep_within_deadline:
  assumes "context_sleep ctx now d = Inr t"
    and "now \<le> tc_start_time ctx + tc_timeout ctx"
  shows "t \<le> tc_start_time ctx + tc_timeout ctx"
  using assms by (auto simp: context_sleep_def remaining_def max_def split: if_splits)

subsection \<open>The observer\<close>

lemma loop_head:
  "fst (wrapper_loop P f ks cur lastx) = []
   \<or> (\<exists>k d evs. fst (wrapper_loop P f ks cur lastx) = Attempt k d # evs)"
  by (cases ks) (auto split: prod.splits outcome.splits)

lemma placed_Attempt:
  "evs = [] \<or> (\<exists>k d evs'. evs = Attempt k d # evs') \<Longrightarrow> placed (Attempt a dur # evs) = placed evs"
  by auto

lemma loop_placed: "placed (fst (wrapper_loop P f ks cur lastx))"
proof (induction ks arbitrary: cur lastx)
  case Nil
  show ?case by simp
next
  case (Cons a ks)
  obtain dur out where r: "run_attempt (timeout P) (f a) = (dur, out)"
    by (cases "run_attempt (timeout P) (f a)")
  show ?case
  proof (cases out)
    case (Returned v)
    with r show ?thesis by simp
  next
    case (Raised e)
    show ?thesis
    proof (cases "e = AsyncioTimeoutError")
      case True
      have "placed (Attempt a dur # fst (wrapper_loop P f ks cur (Some e)))
            = placed (fst (wrapper_loop P f ks cur (Some e)))"
        by (rule placed_Attempt) (rule loop_head)
      with r Raised True Cons.IH[of cur "Some e"] show ?thesis
        by (simp add: split_beta)
    next
      case False
      with r Raised Cons.IH[of "cur * backoff P" "Some e"] show ?thesis
        by (simp add: split_beta)
    qed
  qed
qed

lemma loop_observed:
  "observed (fst (wrapper_loop P f ks cur lastx))
     = concat (map (obs_of P f) (attempts (fst (wrapper_loop P f ks cur lastx))))"
proof (induction ks arbitrary: cur lastx)
  case Nil
  show ?case by simp
next
  case (Cons a ks)
  obtain dur out where r: "run_attempt (timeout P) (f a) = (dur, out)"
    by (cases "run_attempt (timeout P) (f a)")
  show ?case
  proof (cases out)
    case (Returned v)
    with r show ?thesis by (simp add: obs_of_def)
  next
    case (Raised e)
    show ?thesis
    proof (cases "e = AsyncioTimeoutError")
      case True
      with r Raised Cons.IH[of cur "Some e"] show ?thesis
        by (simp add: split_beta obs_of_def)
    next
      case False
      with r Raised Cons.IH[of "cur * backoff P" "Some e"] show ?thesis
        by (simp add: split_beta obs_of_def)
    qed
  qed
qed

lemma loop_attempts_prefix: "prefix (attempts (fst (wrapper_loop P f ks cur lastx))) ks"
proof (induction ks arbitrary: cur lastx)
  case Nil
  show ?case by simp
next
  case (Cons a ks)
  obtain dur out where r: "run_attempt (timeout P) (f a) = (dur, out)"
    by (cases "run_attempt (timeout P) (f a)")
  show ?case
  proof (cases out)
    case (Returned v)
    with r show ?thesis by simp
  next
    case (Raised e)
    show ?thesis
    proof (cases "e = AsyncioTimeoutError")
      case True
      with r Raised Cons.IH[of cur "Some e"] show ?thesis
        by (simp add: split_beta)
    next
      case False
      with r Raised Cons.IH[of "cur * backoff P" "Some e"] show ?thesis
        by (simp add: split_beta)
    qed
  qed
qed

lemma obs_of_snd: "x \<in> set (obs_of P f j) \<Longrightarrow> snd x = j \<and> int j < max_retries P"
  by (auto simp: obs_of_def split: outcome.splits if_splits)

lemma count_concat_obs:
  assumes "distinct ks"
  shows "count_list (concat (map (obs_of P f) ks)) (e, k)
           = (if k \<in> set ks then count_list (obs_of P f k) (e, k) else 0)"
  using assms
proof (induction ks)
  case Nil
  show ?case by simp
next
  case (Cons j ks)
  have other: "j \<noteq> k \<Longrightarrow> count_list (obs_of P f j) (e, k) = 0"
    using obs_of_snd[of "(e, k)" P f j] by (auto simp: count_list_0_iff)
  show ?case
  proof (cases "j = k")
    case True
    with Cons show ?thesis by simp
  next
    case False
    with Cons other show ?thesis by simp
  qed
qed

text \<open>
  Claim C3 as stated fails: under the repository's configuration with an observer, an
  operation that raises on each of its four attempts is observed three times, for
  attempts 0, 1 and 2, and not for the last one.
\<close>

theorem observer_skips_final_attempt:
  "map snd (observed (fst (wrapper (repo_params\<lparr>on_retry := True\<rparr>) failing)))
     \<noteq> filter (attempt_failed (repo_params\<lparr>on_retry := True\<rparr>) failing)
          (attempts (fst (wrapper (repo_params\<lparr>on_retry := True\<rparr>) failing)))"
proof -
  have f: "attempt_failed (repo_params\<lparr>on_retry := True\<rparr>) failing k" for k
    by (simp add: attempt_failed_def failing_def repo_params_def)
  show ?thesis by (simp add: run_failing f)
qed

text \<open>
  Claim C3, amended. With an observer supplied, every attempt that ends in the
  \<open>except exceptions\<close> clause and is followed by a retry (its index is below
  \<open>max_retries\<close>) is reported to the observer exactly once; the observer is never called
  for the attempt of index \<open>max_retries\<close>, the last one; and every call of the observer
  comes right after the attempt it reports and right before the sleep that follows.
\<close>

theorem observer_once_per_retried_exception:
  assumes "on_retry P"
  shows "(\<forall>k e. k \<in> set (attempts (fst (wrapper P f))) \<and> caught P f k e \<and> int k < max_retries P
            \<longrightarrow> count_list (observed (fst (wrapper P f))) (e, k) = 1)
       \<and> (\<forall>x \<in> set (observed (fst (wrapper P f))). int (snd x) < max_retries P)
       \<and> placed (fst (wrapper P f))"
proof -
  let ?run = "fst (wrapper P f)"
  have d: "distinct (attempts ?run)"
    using loop_attempts_prefix[of P f "[0 ..< nat (max_retries P + 1)]" "delay P" None]
    unfolding wrapper_def by (metis distinct_upt prefixE distinct_append)
  have obs: "observed ?run = concat (map (obs_of P f) (attempts ?run))"
    unfolding wrapper_def by (rule loop_observed)
  have one: "count_list (observed ?run) (e, k) = 1"
    if "k \<in> set (attempts ?run)" "caught P f k e" "int k < max_retries P" for k e
    using that assms by (simp add: obs count_concat_obs[OF d] obs_of_def caught_def)
  have two: "int (snd x) < max_retries P" if "x \<in> set (observed ?run)" for x
    using that obs_of_snd[of x P f] by (auto simp: obs)
  have three: "placed ?run" unfolding wrapper_def by (rule loop_placed)
  from one two three show ?thesis by blast
qed

theorem observer_once_per_retried_exception_witness:
  "on_retry (repo_params\<lparr>on_retry := True\<rparr>)
   \<and> 1 \<in> set (attempts (fst (wrapper (repo_params\<lparr>on_retry := True\<rparr>) failing)))
   \<and> caught (repo_params\<lparr>on_retry := True\<rparr>) failing 1 (Exn ''ConnectionError'')
   \<and> int 1 < max_retries (repo_params\<lparr>on_retry := True\<rparr>)
   \<and> count_list (observed (fst (wrapper (repo_params\<lparr>on_retry := True\<rparr>) failing)))
        (Exn ''ConnectionError'', 1) = 1
   \<and> placed (fst (wrapper (repo_params\<lparr>on_retry := True\<rparr>) failing))"
proof -
  have h: "on_retry (repo_params\<lparr>on_retry := True\<rparr>)" by simp
  have a: "1 \<in> set (attempts (fst (wrapper (repo_params\<lparr>on_retry := True\<rparr>) failing)))"
    by (simp add: run_failing)
  have c: "caught (repo_params\<lparr>on_retry := True\<rparr>) failing 1 (Exn ''ConnectionError'')"
    by (simp add: caught_def failing_def repo_params_def)
  have m: "int 1 < max_retries (repo_params\<lparr>on_retry := True\<rparr>)" by (simp add: repo_params_def)
  from observer_once_per_retried_exception[OF h, of failing] a c m h show ?thesis by blast
qed


section \<open>Properties of \<open>_chunk_transcript\<close>\<close>

lemma split_dot_nonempty: "split_dot t \<noteq> []"
  by (induction t rule: split_dot.induct) (auto split: list.splits)

lemma join_Cons: "ys \<noteq> [] \<Longrightarrow> join sep (x # ys) = x @ sep @ join sep ys"
  by (cases ys) auto

text \<open>Splitting at \<open>''. ''\<close> and joining the sentences again gives the text back.\<close>

lemma join_split_dot: "join ''. '' (split_dot t) = t"
proof (induction t rule: split_dot.induct)
  case 1
  show ?case by simp
next
  case (2 c)
  show ?case by simp
next
  case (3 c d cs)
  show ?case
  proof (cases "c = CHR ''.'' \<and> d = CHR '' ''")
    case True
    with 3 show ?thesis by (simp add: join_Cons split_dot_nonempty)
  next
    case False
    obtain s ss where sp: "split_dot (d # cs) = s # ss"
      using split_dot_nonempty[of "d # cs"] by (cases "split_dot (d # cs)") auto
    have j: "join ''. '' ((c # s) # ss) = c # join ''. '' (s # ss)"
      by (cases ss) auto
    have u: "split_dot (c # d # cs) = (c # s) # ss"
      using False sp by auto
    from False 3(2) sp have "join ''. '' (s # ss) = d # cs" by simp
    with j u show ?thesis by simp
  qed
qed

lemma length_join_sep:
  "xs \<noteq> [] \<Longrightarrow> length (join sep xs) + length sep = sum_list (map length xs) + length sep * length xs"
  by (induction sep xs rule: join.induct) auto

lemma length_join: "xs \<noteq> [] \<Longrightarrow> length (join ''. '' xs) + 2 = lenj xs"
  using length_join_sep[of xs "''. ''"] by (simp add: lenj_def)

lemma lenj_append: "lenj (xs @ ys) = lenj xs + lenj ys"
  by (simp add: lenj_def)

text \<open>What the loop keeps: every chunk it closes is one character longer than the
  sentences it holds, joined.\<close>

lemma chunk_loop_inv:
  "chunk_loop tok B ss chunks cur ct = (chunks', cur', ct')
   \<Longrightarrow> lenj chunks' + lenj cur' + length chunks = lenj chunks + lenj cur + lenj ss + length chunks'
       \<and> (cur \<noteq> [] \<or> ss \<noteq> [] \<longrightarrow> cur' \<noteq> [])"
proof (induction ss arbitrary: chunks cur ct)
  case Nil
  then show ?case by (simp add: lenj_def)
next
  case (Cons s ss)
  show ?case
  proof (cases "ct + int (tok s) > B \<and> cur \<noteq> []")
    case True
    with Cons.prems have
      "chunk_loop tok B ss (chunks @ [join ''. '' cur @ ''.'']) [s] (0 + int (tok s)) = (chunks', cur', ct')"
      by (simp add: Let_def)
    from Cons.IH[OF this] True length_join[of cur] show ?thesis
      by (simp add: lenj_append) (simp add: lenj_def)
  next
    case False
    with Cons.prems have
      "chunk_loop tok B ss chunks (cur @ [s]) (ct + int (tok s)) = (chunks', cur', ct')"
      by (auto simp add: Let_def split: if_splits)
    from Cons.IH[OF this] show ?thesis
      by (simp add: lenj_append) (simp add: lenj_def)
  qed
qed

text \<open>
  For every text and every budget there is at least one chunk, and the chunks joined
  by \<open>''. ''\<close> are longer than the text by one character per chunk: the full stop that
  lines 63 and 71 append to each chunk.
\<close>

lemma rejoin_length:
  "chunk_transcript tok t B \<noteq> []
   \<and> length (join ''. '' (chunk_transcript tok t B)) = length t + length (chunk_transcript tok t B)"
proof -
  obtain chunks cur ct where L: "chunk_loop tok B (split_dot t) [] [] 0 = (chunks, cur, ct)"
    by (cases "chunk_loop tok B (split_dot t) [] [] 0") auto
  from chunk_loop_inv[OF L] split_dot_nonempty[of t]
  have inv: "lenj chunks + lenj cur = lenj (split_dot t) + length chunks" and ne: "cur \<noteq> []"
    by (simp_all add: lenj_def)
  have res: "chunk_transcript tok t B = chunks @ [join ''. '' cur @ ''.'']"
    using L ne by (simp add: chunk_transcript_def)
  have "lenj (chunk_transcript tok t B) = lenj chunks + lenj cur + 1"
    using length_join[OF ne] by (simp add: res lenj_append) (simp add: lenj_def)
  moreover have "length (join ''. '' (chunk_transcript tok t B)) + 2 = lenj (chunk_transcript tok t B)"
    by (rule length_join) (simp add: res)
  moreover have "length t + 2 = lenj (split_dot t)"
    using length_join[OF split_dot_nonempty[of t]] by (simp add: join_split_dot)
  ultimately show ?thesis using inv by (simp add: res)
qed

lemma rejoin_differs: "join ''. '' (chunk_transcript tok t B) \<noteq> t"
proof
  assume "join ''. '' (chunk_transcript tok t B) = t"
  then have "length (join ''. '' (chunk_transcript tok t B)) = length t" by simp
  with rejoin_length[of tok t B] show False by (cases "chunk_transcript tok t B") auto
qed

text \<open>
  Claim C4, at the input where it fails: the text of the repository's own test
  \<open>test_chunk_transcript\<close>, under the default budget of 4000 tokens and any tokenizer.
  The splitter returns one chunk, the text with a second full stop appended, so that
  joining the chunks does not give the text back.
\<close>

theorem chunk_transcript_appends_full_stop:
  "chunk_transcript tok ''This is a short transcript.'' 4000 = [''This is a short transcript..'']
   \<and> join ''. '' (chunk_transcript tok ''This is a short transcript.'' 4000)
       \<noteq> ''This is a short transcript.''"
  by (simp add: chunk_transcript_def Let_def)

section \<open>Properties of \<open>_combine_analyses\<close>\<close>

lemma has_listD: "has_list a k \<Longrightarrow> py_getitem a k = Inr (JList (items a k))"
  by (auto simp: has_list_def items_def split: sum.splits jval.splits)

lemma extend_fields_ok:
  "list_all (\<lambda>kv. has_list a (fst kv)) acc
   \<Longrightarrow> extend_fields a acc = Inr (map (\<lambda>kv. (fst kv, snd kv @ items a (fst kv))) acc)"
proof (induction acc)
  case Nil
  show ?case by simp
next
  case (Cons kv acc)
  obtain k xs where kv: "kv = (k, xs)" by (cases kv)
  from Cons.prems kv have g: "py_getitem a k = Inr (JList (items a k))"
    by (simp add: has_listD)
  from Cons kv g show ?case by simp
qed

lemma combine_loop_ok:
  "list_all (\<lambda>a. list_all (\<lambda>kv. has_list a (fst kv)) acc) as
   \<Longrightarrow> combine_loop as acc
       = Inr (map (\<lambda>kv. (fst kv, snd kv @ concat (map (\<lambda>a. items a (fst kv)) as))) acc)"
proof (induction as arbitrary: acc)
  case Nil
  show ?case by (simp add: map_idI)
next
  case (Cons a as)
  let ?acc' = "map (\<lambda>kv. (fst kv, snd kv @ items a (fst kv))) acc"
  from Cons.prems have e: "extend_fields a acc = Inr ?acc'"
    by (simp add: extend_fields_ok)
  from Cons.prems have "list_all (\<lambda>a. list_all (\<lambda>kv. has_list a (fst kv)) ?acc') as"
    by (simp add: list_all_iff)
  from Cons.IH[OF this] e show ?case by (simp add: comp_def)
qed

lemma map_of_fields:
  "map_of (map (\<lambda>k. (k, g k)) ks) k = (if k \<in> set ks then Some (g k) else None)"
  by (induction ks) auto

lemma fields_disjoint: "set list_fields \<inter> set scalar_fields = {}"
  by (simp add: list_fields_def scalar_fields_def)

lemma combine_analyses_ok:
  assumes i: "py_getitem first ''identification'' = Inr i"
    and p: "py_getitem first ''participants'' = Inr p"
    and s: "py_getitem first ''structure'' = Inr s"
    and l: "list_all (\<lambda>a. list_all (\<lambda>k. has_list a k) list_fields) (first # rest)"
  shows "combine_analyses (first # rest)
         = Inr (JObj ([(''identification'', i), (''participants'', p), (''structure'', s)]
                  @ map (\<lambda>k. (k, JList (concat (map (\<lambda>a. items a k) (first # rest))))) list_fields))"
proof -
  have "list_all (\<lambda>a. list_all (\<lambda>kv. has_list a (fst kv)) (map (\<lambda>k. (k, [])) list_fields)) (first # rest)"
    using l by (simp add: list_all_iff)
  from combine_loop_ok[OF this]
  have L: "combine_loop (first # rest) (map (\<lambda>k. (k, [])) list_fields)
         = Inr (map (\<lambda>k. (k, concat (map (\<lambda>a. items a k) (first # rest)))) list_fields)"
    by (simp only: map_map comp_def fst_conv snd_conv append_Nil)
  show ?thesis
    unfolding combine_analyses_def
    by (simp only: list.case i p s L sum.case map_map comp_def fst_conv snd_conv)
qed

lemma scalar_lookup:
  assumes "py_getitem first ''identification'' = Inr i"
    and "py_getitem first ''participants'' = Inr p"
    and "py_getitem first ''structure'' = Inr s"
  shows "list_all (\<lambda>k. py_getitem (JObj ([(''identification'', i), (''participants'', p),
                                           (''structure'', s)] @ others)) k
           = py_getitem first k) scalar_fields"
  using assms by (simp add: scalar_fields_def)

lemma list_lookup:
  assumes "k \<in> set list_fields"
  shows "py_getitem (JObj ([(''identification'', i), (''participants'', p), (''structure'', s)]
                      @ map (\<lambda>k. (k, g k)) list_fields)) k = Inr (g k)"
proof -
  from assms fields_disjoint have "k \<notin> set scalar_fields" by blast
  then have "map_of [(''identification'', i), (''participants'', p), (''structure'', s)] k = None"
    by (simp add: scalar_fields_def)
  then have "map_of ([(''identification'', i), (''participants'', p), (''structure'', s)]
                      @ map (\<lambda>k. (k, g k)) list_fields) k = map_of (map (\<lambda>k. (k, g k)) list_fields) k"
    by (simp only: map_of_append map_add_def option.case)
  then have "map_of ([(''identification'', i), (''participants'', p), (''structure'', s)]
                      @ map (\<lambda>k. (k, g k)) list_fields) k = Some (g k)"
    using assms by (simp only: map_of_fields if_True)
  then show ?thesis by (simp only: py_getitem.simps option.case)
qed

text \<open>
  Claim C7. For a non-empty sequence of chunk-level records in which every list field
  holds a list, and whose first record has the scalar fields, the merge succeeds; in
  the merged record \<open>identification\<close>, \<open>participants\<close> and \<open>structure\<close> are those of the first
  chunk, and every list field is the concatenation of that field over the chunks, in
  chunk order and keeping the order inside each chunk. For two chunks this is
  \<open>merged.resume = c1.resume @ c2.resume\<close>.
\<close>

theorem structured_merge_first_scalars_concat_lists:
  assumes "analyses \<noteq> []"
    and "list_all (\<lambda>k. has_field (hd analyses) k) scalar_fields"
    and "list_all (\<lambda>a. list_all (\<lambda>k. has_list a k) list_fields) analyses"
  shows "\<exists>c. combine_analyses analyses = Inr c
           \<and> list_all (\<lambda>k. py_getitem c k = py_getitem (hd analyses) k) scalar_fields
           \<and> list_all (\<lambda>k. py_getitem c k = Inr (JList (concat (map (\<lambda>a. items a k) analyses))))
                list_fields"
proof -
  obtain first rest where an: "analyses = first # rest" using assms(1) by (cases analyses) auto
  have hf: "list_all (\<lambda>k. has_field first k) scalar_fields" using assms(2) an by simp
  obtain i where i: "py_getitem first ''identification'' = Inr i"
    using hf by (cases "py_getitem first ''identification''") (simp_all add: scalar_fields_def has_field_def)
  obtain p where p: "py_getitem first ''participants'' = Inr p"
    using hf by (cases "py_getitem first ''participants''") (simp_all add: scalar_fields_def has_field_def)
  obtain s where s: "py_getitem first ''structure'' = Inr s"
    using hf by (cases "py_getitem first ''structure''") (simp_all add: scalar_fields_def has_field_def)
  let ?g = "\<lambda>k. JList (concat (map (\<lambda>a. items a k) analyses))"
  let ?kvs = "[(''identification'', i), (''participants'', p), (''structure'', s)]
                  @ map (\<lambda>k. (k, ?g k)) list_fields"
  have c: "combine_analyses analyses = Inr (JObj ?kvs)"
    unfolding an using i p s assms(3)[unfolded an] by (rule combine_analyses_ok)
  have sc: "list_all (\<lambda>k. py_getitem (JObj ?kvs) k = py_getitem (hd analyses) k) scalar_fields"
    unfolding an list.sel by (rule scalar_lookup[OF i p s])
  have li: "list_all (\<lambda>k. py_getitem (JObj ?kvs) k = Inr (?g k)) list_fields"
    unfolding list_all_iff
  proof
    fix k assume "k \<in> set list_fields"
    then show "py_getitem (JObj ?kvs) k = Inr (?g k)" by (rule list_lookup)
  qed
  show ?thesis
  proof (intro exI conjI)
    show "combine_analyses analyses = Inr (JObj ?kvs)" by (rule c)
    show "list_all (\<lambda>k. py_getitem (JObj ?kvs) k = py_getitem (hd analyses) k) scalar_fields"
      by (rule sc)
    show "list_all (\<lambda>k. py_getitem (JObj ?kvs) k = Inr (?g k)) list_fields" by (rule li)
  qed
qed

theorem structured_merge_first_scalars_concat_lists_witness:
  "[c1, c2] \<noteq> []
   \<and> list_all (\<lambda>k. has_field (hd [c1, c2]) k) scalar_fields
   \<and> list_all (\<lambda>a. list_all (\<lambda>k. has_list a k) list_fields) [c1, c2]
   \<and> (\<exists>c. combine_analyses [c1, c2] = Inr c
          \<and> py_getitem c ''identification'' = Inr (JStr ''audition 1'')
          \<and> py_getitem c ''resume'' = Inr (JList [JStr ''r1'', JStr ''r2'', JStr ''r3'']))"
proof -
  have ne: "[c1, c2] \<noteq> []" by simp
  have w1: "list_all (\<lambda>k. has_field (hd [c1, c2]) k) scalar_fields"
    by (simp add: scalar_fields_def has_field_def c1_def)
  have w2: "list_all (\<lambda>a. list_all (\<lambda>k. has_list a k) list_fields) [c1, c2]"
    by (simp add: list_fields_def has_list_def c1_def c2_def)
  from structured_merge_first_scalars_concat_lists[OF ne w1 w2]
  obtain c where c: "combine_analyses [c1, c2] = Inr c"
    and sc: "list_all (\<lambda>k. py_getitem c k = py_getitem (hd [c1, c2]) k) scalar_fields"
    and li: "list_all (\<lambda>k. py_getitem c k = Inr (JList (concat (map (\<lambda>a. items a k) [c1, c2]))))
               list_fields"
    by blast
  from sc have "py_getitem c ''identification'' = py_getitem c1 ''identification''"
    by (simp add: scalar_fields_def)
  then have a: "py_getitem c ''identification'' = Inr (JStr ''audition 1'')"
    by (simp add: c1_def)
  from li have "py_getitem c ''resume'' = Inr (JList (items c1 ''resume'' @ items c2 ''resume''))"
    by (simp add: list_fields_def)
  then have b: "py_getitem c ''resume'' = Inr (JList [JStr ''r1'', JStr ''r2'', JStr ''r3''])"
    by (simp add: items_def c1_def c2_def)
  from ne w1 w2 c a b show ?thesis by blast
qed


section \<open>Properties of \<open>_combine_chunks\<close>\<close>

lemma alt_loop_dg: "alt_loop (map dg_alternative ts) acc = Inr (acc @ map JStr ts)"
  by (induction ts arbitrary: acc) (simp_all add: dg_alternative_def)

lemma channel_loop_dg:
  "channel_loop (map dg_channel chans) acc = Inr (acc @ map JStr (concat chans))"
  by (induction chans arbitrary: acc) (simp_all add: dg_channel_def alt_loop_dg)

lemma chunks_loop_dg:
  "chunks_loop (map dg_response rs) acc = Inr (acc @ map JStr (concat (map concat rs)))"
  by (induction rs arbitrary: acc) (simp_all add: dg_response_def channel_loop_dg)

lemma strs_of_JStr: "strs_of (map JStr ss) = Inr ss"
  by (induction ss) simp_all

text \<open>A chunk without \<open>results\<close> is skipped; a chunk that is not a container raises.\<close>

lemma combine_chunks_examples:
  "combine_chunks [dg_response [[''hello'']], JObj [], dg_response [[''big'', ''BIG''], [''world'']]]
     = Inr ''hello big BIG world''"
  "combine_chunks [JNull] = Inl TypeError"
  by (simp_all add: combine_chunks_def dg_response_def dg_channel_def dg_alternative_def)

text \<open>
  Claim C8 as stated fails: given zero chunks the merge does not fail, it returns the
  empty string.
\<close>

theorem combine_chunks_of_nothing_returns_empty_string: "combine_chunks [] = Inr []"
  by (simp add: combine_chunks_def)

text \<open>
  Claim C8, amended. The merge of a sequence of chunk results is the transcripts of
  the chunks (of every alternative of every channel), in chunk order, joined by single
  spaces; for zero chunks that is the empty string. The caller never passes zero
  chunks: with no valid chunk result it returns \<open>None\<close> without merging.
\<close>

theorem combine_chunks_joins_transcripts:
  "combine_chunks (map dg_response rs) = Inr (join '' '' (concat (map concat rs)))
   \<and> merge_valid_results (replicate n None) = None"
proof -
  have "List.map_filter (\<lambda>r. r) (replicate n (None :: jval option)) = []"
    by (induction n) (simp_all add: List.map_filter_simps)
  then show ?thesis
    by (simp add: combine_chunks_def chunks_loop_dg strs_of_JStr merge_valid_results_def)
qed

theorem combine_chunks_joins_transcripts_witness:
  "combine_chunks [dg_response [[''bonjour'']], dg_response [[''a'', ''tous'']]] = Inr ''bonjour a tous''
   \<and> merge_valid_results [None, None] = None"
  using combine_chunks_joins_transcripts[of "[[[''bonjour'']], [[''a'', ''tous'']]]" 2]
  by (simp add: numeral_2_eq_2)

section \<open>Properties of \<open>process_url\<close>, \<open>generate_consolidated_analysis\<close> and \<open>main\<close>\<close>

subsection \<open>One item\<close>

lemma process_url_raises_no_exception:
  "process_url C url theme = Inl e \<Longrightarrow> \<not> is_exception e"
  by (auto simp: process_url_def split: sum.splits if_splits)


lemma demo_ok:
  "url \<noteq> ''bad'' \<Longrightarrow> url \<noteq> ''stop'' \<Longrightarrow> url \<noteq> ''locked''
   \<Longrightarrow> process_url demo url theme
     = Inr (ItemOk (''text of '' @ url @ ''.wav'')
         (JObj [(''resume'', JList [JStr (''text of '' @ url @ ''.wav'')])]))"
  by (simp add: process_url_def process_url_body_def demo_def)


lemma demo_locked: "process_url demo ''locked'' theme = Inr (ItemError ''PermissionError'')"
  by (simp add: process_url_def process_url_body_def demo_def)


subsection \<open>The fan-out of \<open>generate_consolidated_analysis\<close>\<close>

lemma gather_loop_returns:
  "\<forall>i \<in> set order. tasks ! i = Inr (r i)
   \<Longrightarrow> gather_loop order tasks buf = Inr (\<lambda>i. if i \<in> set order then Some (r i) else buf i)"
proof (induction order arbitrary: buf)
  case Nil
  show ?case by simp
next
  case (Cons a order)
  have "(\<lambda>i. if i \<in> set order then Some (r i) else (buf(a \<mapsto> r a)) i)
        = (\<lambda>i. if i \<in> set (a # order) then Some (r i) else buf i)"
    by (rule ext) simp
  with Cons show ?case by simp
qed

lemma gather_loop_raises:
  "gather_loop order tasks buf = Inl e \<Longrightarrow> \<exists>i \<in> set order. tasks ! i = Inl e"
  by (induction order arbitrary: buf) (auto split: sum.splits)

lemma completion_order_set: "completion_order order n \<Longrightarrow> set order = {0 ..< n}"
proof -
  assume "completion_order order n"
  then have "set (sort order) = set [0 ..< n]" by (simp add: completion_order_def)
  then show ?thesis by simp
qed

lemma gather_all_return:
  assumes "completion_order order (length urls)"
    and "\<forall>url \<in> set urls. g url = Inr (r url)"
  shows "gather order (map g urls) = Inr (map r urls)"
proof -
  have s: "set order = {0 ..< length urls}" using assms(1) by (rule completion_order_set)
  have "\<forall>i \<in> set order. map g urls ! i = Inr (r (urls ! i))"
    using s assms(2) by simp
  from gather_loop_returns[OF this, of Map.empty]
  have L: "gather_loop order (map g urls) Map.empty
           = Inr (\<lambda>i. if i \<in> set order then Some (r (urls ! i)) else None)" .
  have "map (\<lambda>i. the (if i \<in> set order then Some (r (urls ! i)) else None)) [0 ..< length urls]
        = map (\<lambda>i. r (urls ! i)) [0 ..< length urls]"
    using s by simp
  also have "\<dots> = map r urls" by (rule nth_equalityI) simp_all
  finally show ?thesis by (simp add: gather_def L)
qed




subsection \<open>The consolidation\<close>

lemma errors_empty: "(List.map_filter error_of rs = []) = list_all (\<lambda>r. error_of r = None) rs"
  by (induction rs) (auto simp: List.map_filter_simps split: option.splits)

text \<open>
  What \<open>generate_consolidated_analysis\<close> does when it is called: with every item
  completed, one call of \<open>analyze_consolidated\<close> on the analyses in the order of the URLs
  and the theme, whose result it returns; with an item that failed, no call and \<open>None\<close>.
\<close>

lemma generate_all_completed:
  assumes "completion_order order (length urls)"
    and "\<forall>url \<in> set urls. process_url C url theme = Inr (ItemOk (t url) (a url))"
  shows "generate_consolidated_analysis C order urls theme
         = ([(map a urls, theme)],
            case analyze_consolidated C (map a urls) theme of
              Inl e \<Rightarrow> handled e | Inr consolidated \<Rightarrow> Inr consolidated)"
proof -
  from assms have f: "fan_out C order urls theme = Inr (map (\<lambda>url. ItemOk (t url) (a url)) urls)"
    unfolding fan_out_def by (rule gather_all_return)
  have e: "List.map_filter error_of (map (\<lambda>url. ItemOk (t url) (a url)) urls) = []"
    by (simp add: errors_empty list_all_iff)
  have th: "those (map (analysis_of \<circ> (\<lambda>url. ItemOk (t url) (a url))) urls) = Some (map a urls)"
    by (induction urls) simp_all
  show ?thesis
    by (simp add: generate_consolidated_analysis_def f e th split: sum.splits)
qed

lemma generate_some_failed:
  assumes "completion_order order (length urls)"
    and "\<forall>url \<in> set urls. process_url C url theme = Inr (r url)"
    and "\<exists>url \<in> set urls. error_of (r url) \<noteq> None"
  shows "generate_consolidated_analysis C order urls theme = ([], Inr None)"
proof -
  from assms(1,2) have f: "fan_out C order urls theme = Inr (map r urls)"
    unfolding fan_out_def by (rule gather_all_return)
  from assms(3) have "\<not> list_all (\<lambda>x. error_of x = None) (map r urls)"
    by (auto simp: list_all_iff)
  then have e: "List.map_filter error_of (map r urls) \<noteq> []"
    using errors_empty[of "map r urls"] by blast
  show ?thesis by (simp add: generate_consolidated_analysis_def f e)
qed

subsection \<open>A run of \<open>main\<close>\<close>

lemma init_new:
  "init_session_state new_session
     = (new_session\<lparr>processing := Some False, results := Some []\<rparr>, Some TypeError)"
  by (simp add: init_session_state_def new_session_def AudioExtractor_def)

lemma init_loaded: "init_session_state loaded_session = (loaded_session, None)"
  by (simp add: init_session_state_def loaded_session_def)

text \<open>A session that lacks one of the three modules makes \<open>init_session_state\<close> raise:
  none of the three constructor calls has the arguments its class requires.\<close>

lemma init_raises_without_modules:
  "audio_extractor ss = None \<or> transcriber ss = None \<or> analyzer ss = None
   \<Longrightarrow> snd (init_session_state ss) = Some TypeError"
  by (auto simp: init_session_state_def AudioExtractor_def Transcriber_def Analyzer_def Let_def)

lemma results_loop_leaves:
  "futures \<noteq> [] \<Longrightarrow> snd (results_loop futures ss) \<noteq> None"
  by (cases futures) (auto split: sum.splits option.splits)

lemma submit_all_nonempty: "valid_urls \<noteq> [] \<Longrightarrow> submit_all C seen valid_urls theme \<noteq> []"
  by (simp add: submit_all_def)

lemma results_loop_not_completed:
  "valid_urls \<noteq> [] \<Longrightarrow> results_loop (submit_all C seen valid_urls theme) s \<noteq> (s', None)"
  using results_loop_leaves[OF submit_all_nonempty, of valid_urls C seen theme s]
  by (cases "results_loop (submit_all C seen valid_urls theme) s") auto

text \<open>
  No run of \<open>main\<close> calls \<open>analyze_consolidated\<close>, whatever the session, the form, the
  items and the scheduling: lines 215-219 are never reached with a URL to process.
\<close>

lemma main_never_consolidates:
  "consolidation_calls (main C seen order submitted valid_urls theme valid_theme ss) = []"
  by (auto simp: main_def results_loop_not_completed split: prod.splits option.splits sum.splits)

text \<open>
  Claim C6, at the input where it fails: two valid URLs and a valid theme are submitted,
  and both items complete. Called on them, \<open>generate_consolidated_analysis\<close> makes the one
  consolidation call, on both analyses and the theme. But \<open>main\<close> makes none. In a
  session as Streamlit creates it, \<open>init_session_state\<close> raises \<open>TypeError\<close> at line 54,
  where \<open>AudioExtractor()\<close> lacks the arguments that line 43 passes. In a session that
  holds the three modules, \<open>st.experimental_rerun()\<close> (line 213, inside the loop over the
  futures) stops the run after the first item's result: the second result is not
  collected and lines 215-219 are not reached.
\<close>

theorem two_completed_items_get_no_consolidation_call:
  "process_url demo (two_urls ! 0) ''industrie''
     = Inr (ItemOk ''text of https://youtu.be/a.wav''
              (JObj [(''resume'', JList [JStr ''text of https://youtu.be/a.wav''])]))
   \<and> process_url demo (two_urls ! 1) ''industrie''
     = Inr (ItemOk ''text of https://youtu.be/b.wav''
              (JObj [(''resume'', JList [JStr ''text of https://youtu.be/b.wav''])]))
   \<and> generate_consolidated_analysis demo [1, 0] two_urls ''industrie''
     = ([([JObj [(''resume'', JList [JStr ''text of https://youtu.be/a.wav''])],
           JObj [(''resume'', JList [JStr ''text of https://youtu.be/b.wav''])]], ''industrie'')],
        Inr (Some (JObj [(''n'', JNum 2)])))
   \<and> consolidation_calls (main demo (\<lambda>i. i) [1, 0] True two_urls ''industrie'' True new_session) = []
   \<and> end_of_run (main demo (\<lambda>i. i) [1, 0] True two_urls ''industrie'' True new_session)
     = InitRaises TypeError
   \<and> consolidation_calls (main demo (\<lambda>i. i) [1, 0] True two_urls ''industrie'' True loaded_session) = []
   \<and> end_of_run (main demo (\<lambda>i. i) [1, 0] True two_urls ''industrie'' True loaded_session) = Reruns
   \<and> results (session (main demo (\<lambda>i. i) [1, 0] True two_urls ''industrie'' True loaded_session))
     = Some [ItemOk ''text of https://youtu.be/a.wav''
              (JObj [(''resume'', JList [JStr ''text of https://youtu.be/a.wav''])])]
   \<and> consolidated_analysis
       (session (main demo (\<lambda>i. i) [1, 0] True two_urls ''industrie'' True loaded_session)) = None"
proof -
  have p0: "process_url demo ''https://youtu.be/a'' ''industrie''
     = Inr (ItemOk ''text of https://youtu.be/a.wav''
              (JObj [(''resume'', JList [JStr ''text of https://youtu.be/a.wav''])]))"
    by (simp add: demo_ok)
  have p1: "process_url demo ''https://youtu.be/b'' ''industrie''
     = Inr (ItemOk ''text of https://youtu.be/b.wav''
              (JObj [(''resume'', JList [JStr ''text of https://youtu.be/b.wav''])]))"
    by (simp add: demo_ok)
  have g: "generate_consolidated_analysis demo [1, 0] two_urls ''industrie''
     = ([([JObj [(''resume'', JList [JStr ''text of https://youtu.be/a.wav''])],
           JObj [(''resume'', JList [JStr ''text of https://youtu.be/b.wav''])]], ''industrie'')],
        Inr (Some (JObj [(''n'', JNum 2)])))"
    by (simp add: generate_consolidated_analysis_def fan_out_def gather_def two_urls_def p0 p1
                  List.map_filter_simps upt_eq_Cons) (simp add: demo_def)
  have s: "submit_all demo (\<lambda>i. i) two_urls ''industrie''
           = [process_url demo ''https://youtu.be/a'' ''industrie'',
              process_url demo ''https://youtu.be/b'' ''industrie'']"
    by (simp add: submit_all_def two_urls_def upt_eq_Cons)
  have m1: "main demo (\<lambda>i. i) [1, 0] True two_urls ''industrie'' True new_session
            = \<lparr>consolidation_calls = [], end_of_run = InitRaises TypeError,
               session = new_session\<lparr>processing := Some False, results := Some []\<rparr>\<rparr>"
    by (simp add: main_def init_new)
  have m2: "main demo (\<lambda>i. i) [1, 0] True two_urls ''industrie'' True loaded_session
            = \<lparr>consolidation_calls = [], end_of_run = Reruns,
               session = loaded_session\<lparr>results := Some [ItemOk ''text of https://youtu.be/a.wav''
              (JObj [(''resume'', JList [JStr ''text of https://youtu.be/a.wav''])])]\<rparr>\<rparr>"
    by (simp add: main_def init_loaded s p0 p1) (simp add: two_urls_def loaded_session_def)
  show ?thesis
    by (simp only: g m1 m2 main_run.simps simp_thms) (simp add: two_urls_def p0 p1 loaded_session_def)
qed

section \<open>Properties of \<open>MetricsCollector\<close>\<close>

subsection \<open>The file name identifies the operation name and the second\<close>

lemma digit_inj: "a < 10 \<Longrightarrow> b < 10 \<Longrightarrow> ''0123456789'' ! a = ''0123456789'' ! b \<Longrightarrow> a = (b::nat)"
  by (simp add: nth_Cons' split: if_splits)

lemma digit_eq_iff: "digit a = digit b \<longleftrightarrow> a mod 10 = b mod 10"
  unfolding digit_def using digit_inj[of "a mod 10" "b mod 10"] by auto

lemma div_mod_10_eq: "n div 10 = m div 10 \<Longrightarrow> n mod 10 = m mod 10 \<Longrightarrow> n = (m::nat)"
  by (metis div_mult_mod_eq)

lemma pad2_inj: "n < 100 \<Longrightarrow> m < 100 \<Longrightarrow> pad2 n = pad2 m \<Longrightarrow> n = m"
proof -
  assume n: "n < 100" and m: "m < 100" and e: "pad2 n = pad2 m"
  from e have h: "(n div 10) mod 10 = (m div 10) mod 10" and l: "n mod 10 = m mod 10"
    by (simp_all add: pad2_def digit_eq_iff)
  from n m have "n div 10 < 10" "m div 10 < 10" by simp_all
  with h have "n div 10 = m div 10" by simp
  then show "n = m" using l by (rule div_mod_10_eq)
qed

lemma pad4_inj: "n < 10000 \<Longrightarrow> m < 10000 \<Longrightarrow> pad4 n = pad4 m \<Longrightarrow> n = m"
proof -
  assume n: "n < 10000" and m: "m < 10000" and e: "pad4 n = pad4 m"
  from e have a: "(n div 1000) mod 10 = (m div 1000) mod 10"
    and b: "(n div 100) mod 10 = (m div 100) mod 10"
    and c: "(n div 10) mod 10 = (m div 10) mod 10" and d: "n mod 10 = m mod 10"
    by (simp_all add: pad4_def digit_eq_iff)
  from n m have "n div 1000 < 10" "m div 1000 < 10" by simp_all
  with a have a': "n div 1000 = m div 1000" by simp
  have "n div 100 div 10 = n div 1000" "m div 100 div 10 = m div 1000"
    by (simp_all add: div_mult2_eq[symmetric])
  with a' have "n div 100 div 10 = m div 100 div 10" by simp
  then have b': "n div 100 = m div 100" using b by (rule div_mod_10_eq)
  have "n div 10 div 10 = n div 100" "m div 10 div 10 = m div 100"
    by (simp_all add: div_mult2_eq[symmetric])
  with b' have "n div 10 div 10 = m div 10 div 10" by simp
  then have "n div 10 = m div 10" using c by (rule div_mod_10_eq)
  then show "n = m" using d by (rule div_mod_10_eq)
qed

lemma length_strftime: "length (strftime t) = 15"
  by (simp add: strftime_def pad2_def pad4_def)

lemma strftime_inj:
  assumes "valid_tm t" "valid_tm t'" "strftime t = strftime t'"
  shows "t = t'"
proof -
  from assms(3) have "pad4 (tm_year t) = pad4 (tm_year t')" "pad2 (tm_mon t) = pad2 (tm_mon t')"
    "pad2 (tm_mday t) = pad2 (tm_mday t')" "pad2 (tm_hour t) = pad2 (tm_hour t')"
    "pad2 (tm_min t) = pad2 (tm_min t')" "pad2 (tm_sec t) = pad2 (tm_sec t')"
    by (simp_all add: strftime_def pad2_def pad4_def)
  with assms(1,2) have "tm_year t = tm_year t'" "tm_mon t = tm_mon t'" "tm_mday t = tm_mday t'"
    "tm_hour t = tm_hour t'" "tm_min t = tm_min t'" "tm_sec t = tm_sec t'"
    by (auto simp: valid_tm_def intro: pad2_inj pad4_inj)
  then show ?thesis by simp
qed

lemma filename_inj:
  assumes "valid_tm t" "valid_tm t'"
  shows "filename op t = filename op' t' \<longleftrightarrow> op = op' \<and> t = t'"
proof
  assume e: "filename op t = filename op' t'"
  have "length (''_'' @ strftime t @ ''.json'') = length (''_'' @ strftime t' @ ''.json'')"
    by (simp add: length_strftime)
  with e have "op = op' \<and> ''_'' @ strftime t @ ''.json'' = ''_'' @ strftime t' @ ''.json''"
    unfolding filename_def
    using append_eq_append_conv[of op op' "''_'' @ strftime t @ ''.json''" "''_'' @ strftime t' @ ''.json''"]
    by blast
  then have "op = op'" and "strftime t = strftime t'" by simp_all
  with assms strftime_inj show "op = op' \<and> t = t'" by blast
next
  assume "op = op' \<and> t = t'"
  then show "filename op t = filename op' t'" by simp
qed

lemma map_of_write_file: "map_of (write_file n c files) = (map_of files)(n \<mapsto> c)"
  by (induction files) (auto simp: fun_eq_iff)

lemma length_write_file:
  "length (write_file n c files) = (if n \<in> fst ` set files then length files else Suc (length files))"
  by (induction files) force+

lemma operation_complete: "operation (complete now ok err m) = operation m"
  by (simp add: complete_def)

text \<open>
  Claim C9, amended. A record is stored under the name of its operation followed by
  the second it is saved in. Saving replaces what the directory holds under that key
  and leaves what it holds under every other key as it is; two keys are the same
  exactly when the operation name and the second are the same.
\<close>

theorem save_metrics_key_is_operation_and_second:
  assumes "writable (filename (operation m) t)" "valid_tm t" "valid_tm t'"
  shows "map_of (snd (save_metrics writable t now m files)) (filename op' t')
        = (if op' = operation m \<and> t' = t
           then Some (Json (to_dict (fst (save_metrics writable t now m files))))
           else map_of files (filename op' t'))"
  using assms filename_inj[OF assms(3,2), of op' "operation m"]
  by (auto simp: save_metrics_def Let_def map_of_write_file operation_complete)


subsection \<open>Two saves of one operation within one second\<close>

lemma name_chunk: "filename ''analyze_chunk'' noon = ''analyze_chunk_20240501_120000.json''"
  by (simp add: filename_def strftime_def noon_def pad2_def pad4_def digit_def)

lemma save_first:
  "save_metrics (\<lambda>_. True) noon 10 first_chunk_metrics []
     = (complete 10 True None first_chunk_metrics,
        [(filename ''analyze_chunk'' noon, Json (to_dict (complete 10 True None first_chunk_metrics)))])"
  by (simp add: save_metrics_def Let_def first_chunk_metrics_def new_metrics_def complete_def)

lemma save_second:
  "save_metrics (\<lambda>_. True) noon 20 second_chunk_metrics
       [(filename ''analyze_chunk'' noon, c)]
     = (complete 20 True None second_chunk_metrics,
        [(filename ''analyze_chunk'' noon, Json (to_dict (complete 20 True None second_chunk_metrics)))])"
  by (simp add: save_metrics_def Let_def second_chunk_metrics_def new_metrics_def complete_def)

lemma records_differ:
  "to_dict (complete 20 True None second_chunk_metrics) \<noteq> to_dict (complete 10 True None first_chunk_metrics)"
  by (simp add: to_dict_def complete_def second_chunk_metrics_def first_chunk_metrics_def new_metrics_def)

text \<open>
  Claim C9 as stated fails: two records of the operation \<open>analyze_chunk\<close> saved within
  the same second leave one file, and it no longer holds the first record.
\<close>

theorem same_second_save_overwrites:
  "length (snd (save_metrics (\<lambda>_. True) noon 20 second_chunk_metrics
            (snd (save_metrics (\<lambda>_. True) noon 10 first_chunk_metrics [])))) = 1
   \<and> map_of (snd (save_metrics (\<lambda>_. True) noon 20 second_chunk_metrics
            (snd (save_metrics (\<lambda>_. True) noon 10 first_chunk_metrics []))))
        (filename ''analyze_chunk'' noon)
      \<noteq> Some (Json (to_dict (fst (save_metrics (\<lambda>_. True) noon 10 first_chunk_metrics []))))"
  using records_differ by (simp add: save_first save_second)

subsection \<open>The summary's filter\<close>

lemma stem_filename: "stem (filename name t) = name @ ''_'' @ strftime t"
  by (simp add: stem_def filename_def)

lemma suffix_filename: "suffix ''.json'' (filename name t)"
  by (simp add: filename_def suffix_def)

text \<open>What reading one finalized record adds to the totals.\<close>

lemma read_one_record:
  "duration m = Some d \<Longrightarrow>
   read_one (Json (to_dict m)) T
     = \<lparr> total_operations = total_operations T + 1,
         successful_operations = successful_operations T + (if success m then 1 else 0),
         total_duration = total_duration T + d,
         total_retries = total_retries T + of_int (retries m),
         total_api_calls = total_api_calls T + of_int (api_calls m),
         total_api_tokens = total_api_tokens T + of_int (api_tokens m) \<rparr>"
  by (cases T) (simp add: read_one_def add_field_def to_dict_def Let_def)

lemma summary_loop_stored:
  "list_all (\<lambda>r. finalized (snd r)) recs \<Longrightarrow>
   summary_loop (stored recs) T
     = \<lparr> total_operations = total_operations T + length (List.map_filter snd recs),
         successful_operations = successful_operations T
                                 + length (filter success (List.map_filter snd recs)),
         total_duration = total_duration T
                          + sum_list (map (\<lambda>m. the (duration m)) (List.map_filter snd recs)),
         total_retries = total_retries T
                         + sum_list (map (\<lambda>m. of_int (retries m)) (List.map_filter snd recs)),
         total_api_calls = total_api_calls T
                           + sum_list (map (\<lambda>m. of_int (api_calls m)) (List.map_filter snd recs)),
         total_api_tokens = total_api_tokens T
                            + sum_list (map (\<lambda>m. of_int (api_tokens m)) (List.map_filter snd recs)) \<rparr>"
proof (induction recs arbitrary: T)
  case Nil
  show ?case by (simp add: stored_def List.map_filter_simps)
next
  case (Cons r recs)
  obtain name c where r: "r = (name, c)" by (cases r)
  from Cons.prems have fin: "list_all (\<lambda>r. finalized (snd r)) recs" by simp
  show ?case
  proof (cases c)
    case None
    have "summary_loop (stored (r # recs)) T = summary_loop (stored recs) T"
      by (simp add: stored_def r None read_one_def)
    then show ?thesis using Cons.IH[OF fin, of T] by (simp add: r None List.map_filter_simps)
  next
    case (Some m)
    with Cons.prems r obtain d where d: "duration m = Some d" by auto
    have "summary_loop (stored (r # recs)) T
          = summary_loop (stored recs) (read_one (Json (to_dict m)) T)"
      by (simp add: stored_def r Some)
    then show ?thesis
      using Cons.IH[OF fin, of "read_one (Json (to_dict m)) T"]
      by (simp add: r Some List.map_filter_simps read_one_record[OF d] d)
  qed
qed

lemma selected_stored:
  "op \<noteq> [] \<Longrightarrow> selected_files (stored recs) (Some op)
     = stored (filter (\<lambda>r. suffix ''.json'' (fst r) \<and> prefix op (stem (fst r))) recs)"
  by (simp add: selected_files_def glob_json_def stored_def filter_map comp_def conj_commute)

lemma list_all_filter: "list_all P xs \<Longrightarrow> list_all P (filter Q xs)"
  by (simp add: list_all_iff)

text \<open>
  Claim C10 as stated fails. The filter is tested against the stem of the file name,
  the name without its \<open>.json\<close> extension, not against the file name. The name
  \<open>analyze_chunk_20240501_120000.json\<close> starts with the filter
  \<open>analyze_chunk_20240501_120000.j\<close>, yet the summary for that filter counts no record;
  for the filter \<open>analyze_chunk_20240501_120000\<close> it counts the record.
\<close>

theorem filter_is_tested_against_the_stem:
  "prefix ''analyze_chunk_20240501_120000.j'' (filename ''analyze_chunk'' noon)
   \<and> get_metrics_summary
        [(filename ''analyze_chunk'' noon, Json (to_dict (complete 9 True None first_chunk_metrics)))]
        (Some ''analyze_chunk_20240501_120000.j'')
      = \<lparr> sum_total_operations = 0, success_rate = 0, average_duration = 0,
          average_retries = 0, sum_total_api_calls = 0, sum_total_api_tokens = 0 \<rparr>
   \<and> sum_total_operations (get_metrics_summary
        [(filename ''analyze_chunk'' noon, Json (to_dict (complete 9 True None first_chunk_metrics)))]
        (Some ''analyze_chunk_20240501_120000'')) = 1"
  by (simp add: name_chunk get_metrics_summary_def selected_files_def glob_json_def
        stem_def suffix_def read_one_def add_field_def to_dict_def Let_def complete_def
        first_chunk_metrics_def new_metrics_def)

text \<open>
  Claim C10, amended. With a non-empty filter, the summary of a directory of finalized
  records is the summary of exactly the records in the \<open>*.json\<close> files whose stem starts
  with the filter: their count, success rate, average duration, average retries and
  summed API calls and tokens; files that do not parse are skipped. The file of a record
  of any operation whose name extends the filter is such a file, so the records of
  \<open>transcribe_chunk\<close> are counted when the filter is \<open>transcribe\<close>.
\<close>

theorem summary_filter_matches_stem_prefix:
  assumes "op \<noteq> []" and "list_all (\<lambda>r. finalized (snd r)) recs"
  shows "get_metrics_summary (stored recs) (Some op) = summary_of (matching op recs)
       \<and> prefix op (stem (filename (op @ rest) t))
       \<and> suffix ''.json'' (filename (op @ rest) t)"
proof -
  let ?sel = "filter (\<lambda>r. suffix ''.json'' (fst r) \<and> prefix op (stem (fst r))) recs"
  have fin: "list_all (\<lambda>r. finalized (snd r)) ?sel" using assms(2) by (rule list_all_filter)
  have a: "get_metrics_summary (stored recs) (Some op) = summary_of (matching op recs)"
    by (simp add: get_metrics_summary_def selected_stored[OF assms(1)] summary_loop_stored[OF fin]
                  summary_of_def matching_def Let_def)
  have b: "prefix op (stem (filename (op @ rest) t))" by (simp add: stem_filename)
  have c: "suffix ''.json'' (filename (op @ rest) t)" by (rule suffix_filename)
  from a b c show ?thesis by blast
qed


subsection \<open>Examples\<close>

lemma valid_noon: "valid_tm noon"
  by (simp add: valid_tm_def noon_def)

theorem save_metrics_key_is_operation_and_second_witness:
  "valid_tm noon
   \<and> map_of (snd (save_metrics (\<lambda>_. True) noon 20 second_chunk_metrics
                  [(filename ''analyze_chunk'' noon, Json (to_dict (complete 10 True None first_chunk_metrics))),
                   (filename ''transcribe'' noon, Unparseable)]))
        (filename ''analyze_chunk'' noon)
       = Some (Json (to_dict (complete 20 True None second_chunk_metrics)))
   \<and> map_of (snd (save_metrics (\<lambda>_. True) noon 20 second_chunk_metrics
                  [(filename ''analyze_chunk'' noon, Json (to_dict (complete 10 True None first_chunk_metrics))),
                   (filename ''transcribe'' noon, Unparseable)]))
        (filename ''transcribe'' noon)
       = Some Unparseable"
proof -
  let ?files = "[(filename ''analyze_chunk'' noon, Json (to_dict (complete 10 True None first_chunk_metrics))),
                   (filename ''transcribe'' noon, Unparseable)]"
  have op: "operation second_chunk_metrics = ''analyze_chunk''"
    by (simp add: second_chunk_metrics_def new_metrics_def)
  have w: "(\<lambda>_. True) (filename (operation second_chunk_metrics) noon)" by simp
  have m: "fst (save_metrics (\<lambda>_. True) noon 20 second_chunk_metrics ?files)
             = complete 20 True None second_chunk_metrics"
    by (simp add: save_metrics_def Let_def second_chunk_metrics_def new_metrics_def)
  have ne: "filename ''transcribe'' noon \<noteq> filename ''analyze_chunk'' noon"
    by (simp add: filename_def)
  have a: "map_of (snd (save_metrics (\<lambda>_. True) noon 20 second_chunk_metrics ?files))
             (filename ''analyze_chunk'' noon)
           = Some (Json (to_dict (complete 20 True None second_chunk_metrics)))"
    using save_metrics_key_is_operation_and_second[OF w valid_noon valid_noon, where now = 20 and files = ?files and op' = "''analyze_chunk''"] op m by simp
  have b: "map_of (snd (save_metrics (\<lambda>_. True) noon 20 second_chunk_metrics ?files))
             (filename ''transcribe'' noon) = Some Unparseable"
    using save_metrics_key_is_operation_and_second[OF w valid_noon valid_noon, where now = 20 and files = ?files and op' = "''transcribe''"] op ne by simp
  from valid_noon a b show ?thesis by blast
qed

lemma example_dir_eq:
  "example_dir =
     [(filename ''transcribe'' noon, Json (to_dict (complete 7 True None transcribe_metrics))),
      (filename ''transcribe_chunk'' noon, Json (to_dict transcribe_chunk_metrics)),
      (filename ''analyze_chunk'' noon, Json (to_dict (complete 9 True None first_chunk_metrics)))]"
proof -
  have n: "filename ''transcribe_chunk'' noon \<noteq> filename ''transcribe'' noon"
    "filename ''analyze_chunk'' noon \<noteq> filename ''transcribe'' noon"
    "filename ''analyze_chunk'' noon \<noteq> filename ''transcribe_chunk'' noon"
    by (simp_all add: filename_def)
  have s1: "save_metrics (\<lambda>_. True) noon 7 transcribe_metrics []
            = (complete 7 True None transcribe_metrics,
               [(filename ''transcribe'' noon, Json (to_dict (complete 7 True None transcribe_metrics)))])"
    by (simp add: save_metrics_def Let_def transcribe_metrics_def new_metrics_def complete_def)
  have s2: "save_metrics (\<lambda>_. True) noon 8 transcribe_chunk_metrics [(filename ''transcribe'' noon, c)]
            = (transcribe_chunk_metrics,
               [(filename ''transcribe'' noon, c),
                (filename ''transcribe_chunk'' noon, Json (to_dict transcribe_chunk_metrics))])" for c
    using n by (simp add: save_metrics_def Let_def transcribe_chunk_metrics_def new_metrics_def complete_def)
  have s3: "save_metrics (\<lambda>_. True) noon 9 first_chunk_metrics
              [(filename ''transcribe'' noon, c), (filename ''transcribe_chunk'' noon, d)]
            = (complete 9 True None first_chunk_metrics,
               [(filename ''transcribe'' noon, c), (filename ''transcribe_chunk'' noon, d),
                (filename ''analyze_chunk'' noon, Json (to_dict (complete 9 True None first_chunk_metrics)))])" for c d
    using n by (simp add: save_metrics_def Let_def first_chunk_metrics_def new_metrics_def complete_def)
  show ?thesis by (simp add: example_dir_def s1 s2 s3)
qed

lemma example_stored: "stored example_records = example_dir @ [(''transcribe_notes.json'', Unparseable)]"
  by (simp add: stored_def example_records_def example_dir_eq)

lemma example_finalized: "list_all (\<lambda>r. finalized (snd r)) example_records"
  by (simp add: example_records_def complete_def transcribe_chunk_metrics_def)

lemma example_matching:
  "matching ''transcribe'' example_records
     = [complete 7 True None transcribe_metrics, transcribe_chunk_metrics]"
  by (simp add: matching_def example_records_def suffix_filename stem_filename
        List.map_filter_simps)

lemma example_summary_of:
  "summary_of [complete 7 True None transcribe_metrics, transcribe_chunk_metrics]
     = \<lparr> sum_total_operations = 2, success_rate = 1 / 2, average_duration = 4,
         average_retries = 1, sum_total_api_calls = 1, sum_total_api_tokens = 0 \<rparr>"
  by (simp add: summary_of_def complete_def transcribe_metrics_def transcribe_chunk_metrics_def
        new_metrics_def)

text \<open>The amended claim on the example directory: filtering for \<open>transcribe\<close> counts the
  record of \<open>transcribe\<close> and the failed one of \<open>transcribe_chunk\<close>, not the record of
  \<open>analyze_chunk\<close> nor the file that does not parse.\<close>

theorem summary_filter_matches_stem_prefix_witness:
  "''transcribe'' \<noteq> []
   \<and> list_all (\<lambda>r. finalized (snd r)) example_records
   \<and> stored example_records = example_dir @ [(''transcribe_notes.json'', Unparseable)]
   \<and> get_metrics_summary (stored example_records) (Some ''transcribe'')
       = \<lparr> sum_total_operations = 2, success_rate = 1 / 2, average_duration = 4,
           average_retries = 1, sum_total_api_calls = 1, sum_total_api_tokens = 0 \<rparr>
   \<and> prefix ''transcribe'' (stem (filename ''transcribe_chunk'' noon))
   \<and> suffix ''.json'' (filename ''transcribe_chunk'' noon)"
proof -
  have ne: "''transcribe'' \<noteq> []" by simp
  from summary_filter_matches_stem_prefix[OF ne example_finalized, of "''_chunk''" noon]
  have a: "get_metrics_summary (stored example_records) (Some ''transcribe'')
           = summary_of (matching ''transcribe'' example_records)"
    and b: "prefix ''transcribe'' (stem (filename (''transcribe'' @ ''_chunk'') noon))"
    and c: "suffix ''.json'' (filename (''transcribe'' @ ''_chunk'') noon)"
    by blast+
  from a have a': "get_metrics_summary (stored example_records) (Some ''transcribe'')
       = \<lparr> sum_total_operations = 2, success_rate = 1 / 2, average_duration = 4,
           average_retries = 1, sum_total_api_calls = 1, sum_total_api_tokens = 0 \<rparr>"
    by (simp only: example_matching example_summary_of)
  from b have b': "prefix ''transcribe'' (stem (filename ''transcribe_chunk'' noon))" by simp
  from c have c': "suffix ''.json'' (filename ''transcribe_chunk'' noon)" by simp
  from ne example_finalized example_stored a' b' c' show ?thesis by (simp only: simp_thms)
qed

end
